theory Spec2Isabelle
  imports Complex_Main "HOL-Library.Sublist" "HOL-Library.Char_ord" "HOL-Library.List_Lexorder"
begin

section \<open>Python strings\<close>

text \<open>
  A Python \<open>str\<close> is modelled as a \<open>string\<close>, one \<open>char\<close> per code point. The case
  mappings and the whitespace class below are Python's on ASCII text; a statement that
  depends on them carries the hypothesis \<open>isascii\<close> for the strings involved.
\<close>

definition isascii :: "string \<Rightarrow> bool" where
  "isascii s = list_all (\<lambda>c. (of_char c :: nat) < 128) s"

text \<open>\<open>str.isspace\<close> on one character: TAB, LF, VT, FF, CR, FS, GS, RS, US and the blank.\<close>

definition py_isspace :: "char \<Rightarrow> bool" where
  "py_isspace c = ((of_char c :: nat) \<in> {9, 10, 11, 12, 13, 28, 29, 30, 31, 32})"

definition py_isupper :: "char \<Rightarrow> bool" where
  "py_isupper c = (65 \<le> (of_char c :: nat) \<and> (of_char c :: nat) \<le> 90)"

definition py_islower :: "char \<Rightarrow> bool" where
  "py_islower c = (97 \<le> (of_char c :: nat) \<and> (of_char c :: nat) \<le> 122)"

definition lower_char :: "char \<Rightarrow> char" where
  "lower_char c = (if py_isupper c then char_of ((of_char c :: nat) + 32) else c)"

definition upper_char :: "char \<Rightarrow> char" where
  "upper_char c = (if py_islower c then char_of ((of_char c :: nat) - 32) else c)"

text \<open>\<open>s.lower()\<close>\<close>

definition py_lower :: "string \<Rightarrow> string" where
  "py_lower s = map lower_char s"

text \<open>\<open>s.strip(chars)\<close> for a set of characters, and \<open>s.strip()\<close>.\<close>

definition strip_where :: "(char \<Rightarrow> bool) \<Rightarrow> string \<Rightarrow> string" where
  "strip_where p s = rev (dropWhile p (rev (dropWhile p s)))"

definition py_strip :: "string \<Rightarrow> string" where
  "py_strip s = strip_where py_isspace s"

text \<open>
  \<open>s.title()\<close>: a cased character that follows an uncased one (or starts the string) is
  upper-cased, a cased character that follows a cased one is lower-cased. The flag is
  Python's \<open>previous_is_cased\<close>.
\<close>

fun title_from :: "bool \<Rightarrow> string \<Rightarrow> string" where
  "title_from previous_is_cased [] = []"
| "title_from previous_is_cased (c # cs) =
     (if py_islower c then
        (if previous_is_cased then c else upper_char c) # title_from True cs
      else if py_isupper c then
        (if previous_is_cased then lower_char c else c) # title_from True cs
      else c # title_from False cs)"

definition py_title :: "string \<Rightarrow> string" where
  "py_title s = title_from False s"

text \<open>
  \<open>s.replace(old, new)\<close> for a non-empty \<open>old\<close>: every non-overlapping occurrence, from
  the left.
\<close>

fun py_replace :: "string \<Rightarrow> string \<Rightarrow> string \<Rightarrow> string" where
  "py_replace old new [] = []"
| "py_replace old new (c # cs) =
     (if old \<noteq> [] \<and> prefix old (c # cs)
      then new @ py_replace old new (drop (length old) (c # cs))
      else c # py_replace old new cs)"

text \<open>\<open>s.split(sep)\<close> for a separator of one character: never the empty list.\<close>

fun py_split :: "char \<Rightarrow> string \<Rightarrow> string list" where
  "py_split sep [] = [[]]"
| "py_split sep (c # cs) =
     (if c = sep then [] # py_split sep cs
      else (case py_split sep cs of
              [] \<Rightarrow> [[c]]
            | w # ws \<Rightarrow> (c # w) # ws))"

text \<open>\<open>sub in s\<close> is \<^const>\<open>sublist\<close>; \<open>s.find(sub)\<close> is the first index, or \<open>-1\<close>.\<close>

fun py_find_from :: "int \<Rightarrow> string \<Rightarrow> string \<Rightarrow> int" where
  "py_find_from i sub [] = (if sub = [] then i else - 1)"
| "py_find_from i sub (c # cs) =
     (if prefix sub (c # cs) then i else py_find_from (i + 1) sub cs)"

definition py_find :: "string \<Rightarrow> string \<Rightarrow> int" where
  "py_find s sub = py_find_from 0 sub s"

text \<open>\<open>s[start:end]\<close> for \<open>0 \<le> start\<close> and \<open>0 \<le> end\<close>.\<close>

definition py_slice :: "string \<Rightarrow> int \<Rightarrow> int \<Rightarrow> string" where
  "py_slice s start end = take (nat (end - start)) (drop (nat start) s)"

text \<open>\<open>str(n)\<close> for a natural number, as the f-strings format \<open>len(...)\<close>.\<close>

fun str_of_nat :: "nat \<Rightarrow> string" where
  "str_of_nat n =
     (if n < 10 then [char_of (48 + n)]
      else str_of_nat (n div 10) @ [char_of (48 + n mod 10)])"

section \<open>The note store\<close>

text \<open>
  A note is a \<open>dict\<close> of string fields (\<open>content\<close>, \<open>title\<close>, \<open>path\<close>, \<open>topic\<close>); the store is
  a \<open>dict\<close> from path to note. Both are association lists in insertion order, the order
  Python iterates in; \<open>d.get(k, default)\<close> is \<open>dict_get\<close>.
\<close>

type_synonym note_data = "(string \<times> string) list"
type_synonym note_store = "(string \<times> note_data) list"

definition dict_get :: "('k \<times> 'v) list \<Rightarrow> 'k \<Rightarrow> 'v \<Rightarrow> 'v" where
  "dict_get d k dflt = (case map_of d k of None \<Rightarrow> dflt | Some v \<Rightarrow> v)"

text \<open>
  \<open>tool_context.state.get("notes", {})\<close>: the session state either has no \<open>notes\<close> entry
  or holds a store.
\<close>

definition state_get_notes :: "note_store option \<Rightarrow> note_store" where
  "state_get_notes st = (case st of None \<Rightarrow> [] | Some ns \<Rightarrow> ns)"

definition no_knowledge_base :: string where
  "no_knowledge_base = ''No knowledge base loaded. Please ensure notes are available.''"

section \<open>agent/tools/search\_knowledge.py\<close>

record search_match =
  m_path :: string
  m_title :: string
  m_snippet :: string

text \<open>The snippet of one matching note (lines 27 to 41 of the source).\<close>

definition make_snippet :: "string \<Rightarrow> string \<Rightarrow> string \<Rightarrow> string" where
  "make_snippet query query_lower content =
     (let content_lower = py_lower content;
          match_pos = py_find content_lower query_lower
      in if match_pos \<noteq> - 1 then
           (let start = max 0 (match_pos - 100);
                end = min (int (length content)) (match_pos + int (length query) + 100);
                snippet = py_slice content start end;
                snippet1 = (if start > 0 then ''...'' @ snippet else snippet)
            in if end < int (length content) then snippet1 @ ''...'' else snippet1)
         else (if length content > 200 then take 200 content @ ''...'' else content))"

text \<open>
  The test of line 25: the lowered query occurs in the lowered title or content.
  \<open>py_lower\<close> here, and \<open>py_lower\<close> and \<open>py_strip\<close> in the snippet, are \<open>str.lower\<close> and
  \<open>str.strip\<close> on ASCII text only, so every statement about the matches of a search
  takes the query and the title and content of every note to be ASCII (\<open>ascii_note\<close>).
\<close>

definition ascii_note :: "string \<times> note_data \<Rightarrow> bool" where
  "ascii_note item =
     (case item of (path, note_data) \<Rightarrow>
        isascii (dict_get note_data ''title'' path) \<and> isascii (dict_get note_data ''content'' []))"

definition note_matches :: "string \<Rightarrow> string \<times> note_data \<Rightarrow> bool" where
  "note_matches query item =
     (case item of (path, note_data) \<Rightarrow>
        (let title = dict_get note_data ''title'' path;
             content = dict_get note_data ''content'' '''';
             query_lower = py_lower query
         in sublist query_lower (py_lower title) \<or> sublist query_lower (py_lower content)))"

definition match_of :: "string \<Rightarrow> string \<times> note_data \<Rightarrow> search_match" where
  "match_of query item =
     (case item of (path, note_data) \<Rightarrow>
        (let title = dict_get note_data ''title'' path;
             content = dict_get note_data ''content'' ''''
         in \<lparr>m_path = path, m_title = title,
             m_snippet = py_strip (make_snippet query (py_lower query) content)\<rparr>))"

text \<open>The loop over \<open>notes.items()\<close>, appending to \<open>matches\<close>.\<close>

fun collect_matches :: "string \<Rightarrow> note_store \<Rightarrow> search_match list \<Rightarrow> search_match list" where
  "collect_matches query [] matches = matches"
| "collect_matches query (item # rest) matches =
     (if note_matches query item
      then collect_matches query rest (matches @ [match_of query item])
      else collect_matches query rest matches)"

definition format_match :: "search_match \<Rightarrow> string" where
  "format_match m =
     ''**'' @ m_title m @ ''** (`'' @ m_path m @ ''`)\<newline>'' @
     ''> '' @ m_snippet m @ ''\<newline>\<newline>''"

text \<open>The loop over \<open>matches[:10]\<close>, appending to \<open>result\<close>.\<close>

fun append_matches :: "search_match list \<Rightarrow> string \<Rightarrow> string" where
  "append_matches [] result = result"
| "append_matches (m # ms) result = append_matches ms (result @ format_match m)"

definition found_header :: "nat \<Rightarrow> string \<Rightarrow> string" where
  "found_header n query =
     ''Found '' @ str_of_nat n @ '' note(s) matching '' @ [CHR 0x27] @ query @ [CHR 0x27]
       @ '':\<newline>\<newline>''"

definition none_found :: "string \<Rightarrow> string" where
  "none_found query =
     ''No notes found matching '' @ [CHR 0x27] @ query @ [CHR 0x27]
       @ ''. Try different keywords or use list_notes to see all available notes.''"

definition more_results :: "nat \<Rightarrow> string" where
  "more_results n = ''...and '' @ str_of_nat n @ '' more results.''"

definition search_knowledge :: "string \<Rightarrow> note_store option \<Rightarrow> string" where
  "search_knowledge query st =
     (let notes = state_get_notes st
      in if notes = [] then no_knowledge_base
         else
           (let matches = collect_matches query notes []
            in if matches = [] then none_found query
               else
                 (let result = append_matches (take 10 matches)
                                 (found_header (length matches) query)
                  in if length matches > 10
                     then result @ more_results (length matches - 10)
                     else result)))"

section \<open>agent/tools/draft\_note.py\<close>

text \<open>
  The draft event of \<open>draft_note\<close>. The function returns a text that embeds the event as
  \<open>json.dumps\<close> between \<open><!--DRAFT:\<close> and \<open>-->\<close>; the model returns the event itself.
\<close>

record draft_event =
  d_path :: string
  d_title :: string
  d_content :: string
  d_is_new :: bool

text \<open>\<open>not x\<close> for an optional string: \<open>None\<close> and the empty string are both false.\<close>

definition falsy :: "string option \<Rightarrow> bool" where
  "falsy x = (case x of None \<Rightarrow> True | Some s \<Rightarrow> s = [])"

text \<open>The characters of the class \<open>[a-z0-9]\<close>.\<close>

definition is_az09 :: "char \<Rightarrow> bool" where
  "is_az09 c = (py_islower c \<or> (48 \<le> (of_char c :: nat) \<and> (of_char c :: nat) \<le> 57))"

text \<open>\<open>re.sub(r"[^a-z0-9]+", "-", s)\<close>: every maximal run outside the class becomes one hyphen.\<close>

function sub_non_alnum :: "string \<Rightarrow> string" where
  "sub_non_alnum [] = []"
| "sub_non_alnum (c # cs) =
     (if is_az09 c then c # sub_non_alnum cs
      else CHR ''-'' # sub_non_alnum (dropWhile (\<lambda>x. \<not> is_az09 x) cs))"
  by pat_completeness auto
termination
  by (relation "measure length") (auto simp: le_imp_less_Suc length_dropWhile_le)

definition slugify :: "string \<Rightarrow> string" where
  "slugify title = strip_where (\<lambda>c. c = CHR ''-'') (sub_non_alnum (py_lower title))"

text \<open>Lines 38 to 43: the title when none is given.\<close>

definition title_from_content :: "string \<Rightarrow> string" where
  "title_from_content content =
     (let first_line = hd (py_split (CHR ''\<newline>'') (py_strip content))
      in if prefix ''# '' first_line then py_strip (drop 2 first_line)
         else ''Untitled Note'')"

text \<open>
  \<open>tool_context\<close> is \<open>None\<close> by default; otherwise its state has a \<open>notes\<close> entry or not.
\<close>

definition draft_note ::
  "string \<Rightarrow> string option \<Rightarrow> string option \<Rightarrow> note_store option option \<Rightarrow> draft_event" where
  "draft_note content title path tool_context =
     (let notes = (case tool_context of None \<Rightarrow> [] | Some st \<Rightarrow> state_get_notes st);
          title1 = (if falsy title then title_from_content content else the title);
          path1 = (if falsy path then slugify title1 @ ''.md'' else the path);
          is_new = (map_of notes path1 = None)
      in \<lparr>d_path = path1, d_title = title1, d_content = content, d_is_new = is_new\<rparr>)"

section \<open>backend/github\_client.py: extract\_title\_from\_content\<close>

text \<open>
  \<open>re.match(r"^#\s+(.+)$", s, re.MULTILINE)\<close>, returning group 1. The match starts at the
  beginning of \<open>s\<close>. \<open>\s+\<close> is greedy and gives characters back one at a time: with \<open>k\<close>
  whitespace characters taken, \<open>(.+)\<close> needs a next character that is not a newline,
  takes the rest of that line, and \<open>$\<close> then holds.
\<close>

definition heading_group :: "string \<Rightarrow> nat \<Rightarrow> string option" where
  "heading_group rest k =
     (case drop k rest of
        [] \<Rightarrow> None
      | c # cs \<Rightarrow> if c = CHR ''\<newline>'' then None
                 else Some (takeWhile (\<lambda>x. x \<noteq> CHR ''\<newline>'') (c # cs)))"

fun first_some :: "('a \<Rightarrow> 'b option) \<Rightarrow> 'a list \<Rightarrow> 'b option" where
  "first_some f [] = None"
| "first_some f (x # xs) = (case f x of Some y \<Rightarrow> Some y | None \<Rightarrow> first_some f xs)"

definition re_match_heading :: "string \<Rightarrow> string option" where
  "re_match_heading s =
     (case s of
        [] \<Rightarrow> None
      | c # rest \<Rightarrow>
          if c \<noteq> CHR ''#'' then None
          else (let w = length (takeWhile py_isspace rest)
                in first_some (heading_group rest) (rev [1 ..< Suc w])))"

definition filename_title :: "string \<Rightarrow> string" where
  "filename_title filename =
     py_title (py_replace ''.md'' [] (py_replace ''_'' '' '' (py_replace ''-'' '' '' filename)))"

definition extract_title_from_content :: "string \<Rightarrow> string \<Rightarrow> string" where
  "extract_title_from_content content filename =
     (case re_match_heading (py_strip content) of
        Some g \<Rightarrow> py_strip g
      | None \<Rightarrow> filename_title filename)"

section \<open>scripts/cluster\_notes.py: the title of a local note\<close>

text \<open>
  \<open>Path.stem\<close> of a file name: the name without its last suffix; a name has a suffix when
  its last dot is neither its first nor its last character.
\<close>

definition path_stem :: "string \<Rightarrow> string" where
  "path_stem name =
     (let after = rev (takeWhile (\<lambda>c. c \<noteq> CHR ''.'') (rev name));
          before = rev (tl (dropWhile (\<lambda>c. c \<noteq> CHR ''.'') (rev name)))
      in if CHR ''.'' \<in> set name \<and> before \<noteq> [] \<and> after \<noteq> [] then before else name)"

text \<open>Lines 140 to 143: the loop over the lines, left at the first that starts with \<open># \<close>.\<close>

fun first_hash_line :: "string list \<Rightarrow> string \<Rightarrow> string" where
  "first_hash_line [] title = title"
| "first_hash_line (line # rest) title =
     (if prefix ''# '' line then py_strip (drop 2 line) else first_hash_line rest title)"

text \<open>Lines 139 to 143, for the content of a file and its name.\<close>

definition cluster_notes_title :: "string \<Rightarrow> string \<Rightarrow> string" where
  "cluster_notes_title content name =
     (let title = py_title (py_replace ''_'' '' '' (py_replace ''-'' '' '' (path_stem name)))
      in first_hash_line (py_split (CHR ''\<newline>'') content) title)"

section \<open>agent/tools/list\_notes.py\<close>

record listed_note =
  l_path :: string
  l_title :: string

text \<open>Lines 26 to 30: the topic is the first directory of the path, or \<open>General\<close>.\<close>

definition topic_of_path :: "string \<Rightarrow> string" where
  "topic_of_path path =
     (let parts = py_split (CHR ''/'') path
      in if length parts > 1 then hd parts else ''General'')"

text \<open>\<open>by_topic[topic].append(v)\<close> on a \<open>defaultdict(list)\<close>, kept in insertion order.\<close>

fun dd_append :: "(string \<times> 'a list) list \<Rightarrow> string \<Rightarrow> 'a \<Rightarrow> (string \<times> 'a list) list" where
  "dd_append [] k v = [(k, [v])]"
| "dd_append ((k', vs) # rest) k v =
     (if k' = k then (k', vs @ [v]) # rest else (k', vs) # dd_append rest k v)"

text \<open>The loop over \<open>notes.items()\<close>.\<close>

fun group_notes ::
  "note_store \<Rightarrow> (string \<times> listed_note list) list \<Rightarrow> (string \<times> listed_note list) list" where
  "group_notes [] by_topic = by_topic"
| "group_notes ((path, note_data) # rest) by_topic =
     group_notes rest
       (dd_append by_topic (topic_of_path path)
          \<lparr>l_path = path, l_title = dict_get note_data ''title'' path\<rparr>)"

definition note_line :: "listed_note \<Rightarrow> string" where
  "note_line note = ''- **'' @ l_title note @ ''** (`'' @ l_path note @ ''`)\<newline>''"

text \<open>The inner loop over \<open>sorted(topic_notes, key=title)\<close>.\<close>

fun append_note_lines :: "listed_note list \<Rightarrow> string \<Rightarrow> string" where
  "append_note_lines [] result = result"
| "append_note_lines (note # rest) result = append_note_lines rest (result @ note_line note)"

definition topic_heading :: "string \<Rightarrow> nat \<Rightarrow> string" where
  "topic_heading topic n =
     ''## '' @ py_title (py_replace ''-'' '' '' topic) @ '' ('' @ str_of_nat n @ '' notes)\<newline>''"

text \<open>The outer loop over \<open>sorted(by_topic.keys())\<close>.\<close>

fun append_topics :: "(string \<times> listed_note list) list \<Rightarrow> string list \<Rightarrow> string \<Rightarrow> string" where
  "append_topics by_topic [] result = result"
| "append_topics by_topic (topic # rest) result =
     (let topic_notes = dict_get by_topic topic [];
          result1 = result @ topic_heading topic (length topic_notes);
          result2 = append_note_lines (sort_key l_title topic_notes) result1
      in append_topics by_topic rest (result2 @ ''\<newline>''))"

definition list_header :: "nat \<Rightarrow> nat \<Rightarrow> string" where
  "list_header n_notes n_topics =
     ''Knowledge Base: '' @ str_of_nat n_notes @ '' note(s) across '' @ str_of_nat n_topics
       @ '' topic(s)\<newline>\<newline>''"

definition list_footer :: string where
  "list_footer =
     ''Use search_knowledge to find specific information, or get_note to read a full note.''"

definition list_notes :: "note_store option \<Rightarrow> string" where
  "list_notes st =
     (let notes = state_get_notes st
      in if notes = [] then no_knowledge_base
         else
           (let by_topic = group_notes notes [];
                result = list_header (length notes) (length by_topic);
                result1 = append_topics by_topic (sort (map fst by_topic)) result
            in result1 @ list_footer))"

section \<open>Exceptions and JSON values\<close>

text \<open>
  The exceptions below \<open>Exception\<close> that the modelled code raises or meets; \<open>RemoteError\<close>
  stands for whatever the GitHub client raises.
\<close>

datatype exn =
    ValueError string
  | TypeError
  | AttributeError
  | UnicodeDecodeError
  | RemoteError string

text \<open>
  What \<open>request.json()\<close> yields. Numbers are the integers (GitHub's pull request numbers
  are); an object is an association list with distinct keys.
\<close>

datatype json =
    JNull
  | JBool bool
  | JInt int
  | JStr string
  | JArr "json list"
  | JObj "(string \<times> json) list"

text \<open>\<open>x.get(key, default)\<close>: only a \<open>dict\<close> has \<open>get\<close>.\<close>

definition json_get :: "json \<Rightarrow> string \<Rightarrow> json \<Rightarrow> exn + json" where
  "json_get x key dflt =
     (case x of JObj kvs \<Rightarrow> Inr (dict_get kvs key dflt) | _ \<Rightarrow> Inl AttributeError)"

text \<open>Python's truth value of a JSON value.\<close>

definition truthy :: "json \<Rightarrow> bool" where
  "truthy x =
     (case x of
        JNull \<Rightarrow> False
      | JBool b \<Rightarrow> b
      | JInt n \<Rightarrow> n \<noteq> 0
      | JStr s \<Rightarrow> s \<noteq> []
      | JArr xs \<Rightarrow> xs \<noteq> []
      | JObj kvs \<Rightarrow> kvs \<noteq> [])"

text \<open>
  \<open>x in d\<close> for a \<open>dict\<close> with integer keys: the key that \<open>x\<close> is equal to, if one can
  exist. \<open>True\<close> and \<open>False\<close> are equal to \<open>1\<close> and \<open>0\<close>; a list or a \<open>dict\<close> cannot be
  hashed.
\<close>

definition int_key :: "json \<Rightarrow> exn + int option" where
  "int_key x =
     (case x of
        JNull \<Rightarrow> Inr None
      | JBool b \<Rightarrow> Inr (Some (if b then 1 else 0))
      | JInt n \<Rightarrow> Inr (Some n)
      | JStr s \<Rightarrow> Inr None
      | JArr xs \<Rightarrow> Inl TypeError
      | JObj kvs \<Rightarrow> Inl TypeError)"

section \<open>backend/github\_client.py: verify\_webhook\_signature\<close>

type_synonym bytes = "char list"

definition hex_digit :: "nat \<Rightarrow> char" where
  "hex_digit n = ''0123456789abcdef'' ! n"

text \<open>\<open>hexdigest()\<close> of a digest: two lowercase hexadecimal digits for every byte.\<close>

definition hexdigest :: "bytes \<Rightarrow> string" where
  "hexdigest digest =
     concat (map (\<lambda>b. [hex_digit ((of_char b :: nat) div 16), hex_digit ((of_char b :: nat) mod 16)])
               digest)"

text \<open>
  \<open>hmac.compare_digest\<close> on two \<open>str\<close>: a \<open>TypeError\<close> when either has a character
  outside ASCII.
\<close>

definition compare_digest :: "string \<Rightarrow> string \<Rightarrow> exn + bool" where
  "compare_digest a b = (if isascii a \<and> isascii b then Inr (a = b) else Inl TypeError)"

text \<open>
  The first argument is HMAC-SHA256 of the standard library, from the key
  \<open>secret.encode("utf-8")\<close> and the message to the 32 bytes of the digest.
\<close>

definition verify_webhook_signature ::
  "(string \<Rightarrow> bytes \<Rightarrow> bytes) \<Rightarrow> bytes \<Rightarrow> string option \<Rightarrow> string \<Rightarrow> exn + bool" where
  "verify_webhook_signature hmac_sha256 payload signature secret =
     (if falsy signature \<or> \<not> prefix ''sha256='' (the signature) then Inr False
      else
        (let expected_signature = ''sha256='' @ hexdigest (hmac_sha256 secret payload)
         in compare_digest (the signature) expected_signature))"

section \<open>backend/github\_client.py: the remote repository\<close>

text \<open>
  What the GitHub client shows of the remote repository. A read either raises or yields
  its value. \<open>clusters_json\<close> is \<open>clusters.json\<close> read, decoded and parsed on a branch:
  the value under \<open>clusters\<close> when the key is there, each cluster with its \<open>name\<close> and
  \<open>notes\<close> when it has them. The manifest is taken to have the shape that
  \<open>scripts/cluster_notes.py\<close> writes: a list of clusters, names and filenames as strings.
\<close>

record content_file =
  file_type :: string
  file_name :: string
  decoded_content :: "exn + string"

record cluster =
  cluster_name :: "string option"
  cluster_notes :: "string list option"

record remote_pr =
  merged :: bool
  state :: string
  remote_merged_at :: "string option"
  remote_closed_at :: "string option"
  html_url :: string

record repository =
  default_branch :: string
  clusters_json :: "string \<Rightarrow> exn + cluster list option"
  root_contents :: "string \<Rightarrow> exn + content_file list"
  get_pull :: "int \<Rightarrow> exn + remote_pr"

text \<open>
  \<open>get_github_client()\<close>: it raises, or returns \<open>None\<close> without credentials, or a client
  whose \<open>get_repo\<close> is the function.
\<close>

type_synonym github = "exn + (string \<Rightarrow> exn + repository) option"

text \<open>\<open>d[k] = v\<close> on a \<open>dict\<close> in insertion order.\<close>

fun dict_set :: "('k \<times> 'v) list \<Rightarrow> 'k \<Rightarrow> 'v \<Rightarrow> ('k \<times> 'v) list" where
  "dict_set [] k v = [(k, v)]"
| "dict_set ((k', v') # rest) k v =
     (if k' = k then (k', v) # rest else (k', v') # dict_set rest k v)"

text \<open>Lines 338 to 341: the loops that fill \<open>note_to_cluster\<close>.\<close>

fun assign_notes :: "string \<Rightarrow> string list \<Rightarrow> (string \<rightharpoonup> string) \<Rightarrow> (string \<rightharpoonup> string)" where
  "assign_notes name [] note_to_cluster = note_to_cluster"
| "assign_notes name (note_file # rest) note_to_cluster =
     assign_notes name rest (note_to_cluster(note_file \<mapsto> name))"

fun assign_clusters :: "cluster list \<Rightarrow> (string \<rightharpoonup> string) \<Rightarrow> (string \<rightharpoonup> string)" where
  "assign_clusters [] note_to_cluster = note_to_cluster"
| "assign_clusters (c # rest) note_to_cluster =
     (let name = (case cluster_name c of None \<Rightarrow> ''General'' | Some n \<Rightarrow> n);
          files = (case cluster_notes c of None \<Rightarrow> [] | Some fs \<Rightarrow> fs)
      in assign_clusters rest (assign_notes name files note_to_cluster))"

text \<open>
  Lines 349 to 364: the loop over the files of the root directory. A file that cannot be
  decoded is skipped. (The \<open>ValueError\<close> of line 366 carries the text of its cause after
  the message given below.)
\<close>

fun collect_notes :: "(string \<rightharpoonup> string) \<Rightarrow> content_file list \<Rightarrow> note_store \<Rightarrow> note_store" where
  "collect_notes note_to_cluster [] notes = notes"
| "collect_notes note_to_cluster (f # rest) notes =
     (if file_type f = ''file'' \<and> suffix ''.md'' (file_name f) then
        (case decoded_content f of
           Inl e \<Rightarrow> collect_notes note_to_cluster rest notes
         | Inr file_content \<Rightarrow>
             (let filename = file_name f;
                  title = extract_title_from_content file_content filename;
                  topic = (case note_to_cluster filename of None \<Rightarrow> ''General'' | Some t \<Rightarrow> t)
              in collect_notes note_to_cluster rest
                   (dict_set notes filename
                      [(''content'', file_content), (''title'', title),
                       (''path'', filename), (''topic'', topic)])))
      else collect_notes note_to_cluster rest notes)"

definition fetch_knowledge_base :: "github \<Rightarrow> string \<Rightarrow> string option \<Rightarrow> exn + note_store" where
  "fetch_knowledge_base client repo_name branch =
     (case client of
        Inl e \<Rightarrow> Inl e
      | Inr None \<Rightarrow> Inl (ValueError ''GitHub App not configured'')
      | Inr (Some get_repo) \<Rightarrow>
          (case get_repo repo_name of
             Inl e \<Rightarrow> Inl e
           | Inr repo \<Rightarrow>
               (let target_branch = (if falsy branch then default_branch repo else the branch);
                    note_to_cluster =
                      (case clusters_json repo target_branch of
                         Inl e \<Rightarrow> Map.empty
                       | Inr data \<Rightarrow>
                           assign_clusters (case data of None \<Rightarrow> [] | Some cs \<Rightarrow> cs) Map.empty)
                in case root_contents repo target_branch of
                     Inl e \<Rightarrow> Inl (ValueError ''Failed to fetch knowledge base'')
                   | Inr contents \<Rightarrow> Inr (collect_notes note_to_cluster contents []))))"

text \<open>\<open>get_pr_status\<close>: the three-valued status, \<open>merged\<close> before \<open>closed\<close>.\<close>

record pr_status =
  r_pr_number :: int
  r_status :: string
  r_merged_at :: "string option"
  r_closed_at :: "string option"
  r_html_url :: string

definition get_pr_status :: "github \<Rightarrow> string \<Rightarrow> int \<Rightarrow> exn + pr_status" where
  "get_pr_status client repo_name number =
     (case client of
        Inl e \<Rightarrow> Inl e
      | Inr None \<Rightarrow> Inl (ValueError ''GitHub App not configured'')
      | Inr (Some get_repo) \<Rightarrow>
          (case get_repo repo_name of
             Inl e \<Rightarrow> Inl e
           | Inr repo \<Rightarrow>
               (case get_pull repo number of
                  Inl e \<Rightarrow> Inl e
                | Inr pr \<Rightarrow>
                    Inr \<lparr>r_pr_number = number,
                         r_status = (if merged pr then ''merged''
                                     else if state pr = ''closed'' then ''closed'' else ''open''),
                         r_merged_at = remote_merged_at pr,
                         r_closed_at = remote_closed_at pr,
                         r_html_url = html_url pr\<rparr>)))"

section \<open>backend/main.py: the cache and the ledger\<close>

record submitted_pr =
  pr_number :: int
  pr_url :: string
  branch :: string
  user_email :: string
  files :: "string list"
  status :: string
  submitted_at :: string
  merged_at :: "string option"
  closed_at :: "string option"

text \<open>The module's globals \<open>_notes_cache\<close>, \<open>_cache_timestamp\<close> and \<open>_submitted_prs\<close>.\<close>

record app_state =
  notes_cache :: note_store
  cache_timestamp :: real
  submitted_prs :: "int \<rightharpoonup> submitted_pr"

definition CACHE_TTL :: real where
  "CACHE_TTL = 300"

text \<open>The process environment, fixed while the process runs.\<close>

record environ =
  KNOWLEDGE_REPO :: "string option"
  KNOWLEDGE_BRANCH :: "string option"
  GITHUB_WEBHOOK_SECRET :: "string option"

text \<open>
  What one call observes of the outside: the GitHub client, \<open>time.time()\<close> at the
  freshness test and after the fetch, and \<open>datetime.utcnow().isoformat()\<close>.
\<close>

record world =
  github_client :: github
  time_check :: real
  time_fetched :: real
  utcnow :: string

text \<open>The body of the \<open>try\<close>, lines 115 to 125.\<close>

definition try_fetch :: "environ \<Rightarrow> world \<Rightarrow> string \<Rightarrow> app_state \<Rightarrow> exn + note_store \<times> app_state" where
  "try_fetch env w repo_name s =
     (case fetch_knowledge_base (github_client w) repo_name (KNOWLEDGE_BRANCH env) of
        Inl e \<Rightarrow> Inl e
      | Inr fetched \<Rightarrow>
          Inr (fetched, s\<lparr>notes_cache := fetched, cache_timestamp := time_fetched w\<rparr>))"

text \<open>
  \<open>refresh_notes_cache(force)\<close>: the mapping returned, the state after the call, and the
  number of calls of \<open>fetch_knowledge_base\<close> it made. The handler of line 127 catches
  every exception of the \<open>try\<close>, and nothing outside the \<open>try\<close> raises.
\<close>

definition refresh_notes_cache ::
  "environ \<Rightarrow> world \<Rightarrow> bool \<Rightarrow> app_state \<Rightarrow> note_store \<times> app_state \<times> nat" where
  "refresh_notes_cache env w force s =
     (if \<not> force \<and> notes_cache s \<noteq> [] \<and> time_check w - cache_timestamp s < CACHE_TTL
      then (notes_cache s, s, 0)
      else if falsy (KNOWLEDGE_REPO env) then ([], s, 0)
      else
        (case try_fetch env w (the (KNOWLEDGE_REPO env)) s of
           Inr (fetched, s') \<Rightarrow> (fetched, s', 1)
         | Inl e \<Rightarrow> (if notes_cache s \<noteq> [] then (notes_cache s, s, 1) else ([], s, 1))))"

section \<open>backend/main.py: the webhook and the status poll\<close>

text \<open>
  The parts of a request that the handler reads: two headers, the raw body, and what
  \<open>request.json()\<close> makes of the body (\<open>None\<close> when it raises).
\<close>

record request =
  hub_signature_256 :: "string option"
  github_event :: "string option"
  raw_body :: bytes
  json_body :: "json option"

text \<open>A request ends in an \<open>HTTPException\<close>, in an exception nobody catches, or in a reply.\<close>

datatype failure =
    HTTPException nat string
  | Uncaught exn

text \<open>
  The replies of the webhook, in the order of the source: \<open>PR #n merged, knowledge base
  refreshed\<close>, \<open>PR #n closed\<close>, \<open>Knowledge base refreshed\<close> and \<open>Webhook received\<close>.
\<close>

datatype reply =
    Merged_refreshed json
  | Closed_unmerged json
  | Refreshed
  | Received

text \<open>\<open>headers.get(name, "")\<close>\<close>

definition header_or_empty :: "string option \<Rightarrow> string" where
  "header_or_empty h = (case h of None \<Rightarrow> [] | Some v \<Rightarrow> v)"

text \<open>Lines 486 to 491: the failure of the signature check, if any.\<close>

definition check_signature ::
  "(string \<Rightarrow> bytes \<Rightarrow> bytes) \<Rightarrow> environ \<Rightarrow> request \<Rightarrow> failure option" where
  "check_signature hmac_sha256 env req =
     (if falsy (GITHUB_WEBHOOK_SECRET env) then None
      else
        (let signature = header_or_empty (hub_signature_256 req);
             body = raw_body req
         in case verify_webhook_signature hmac_sha256 body (Some signature)
                   (the (GITHUB_WEBHOOK_SECRET env)) of
              Inl e \<Rightarrow> Some (Uncaught e)
            | Inr ok \<Rightarrow>
                if \<not> ok then Some (HTTPException 401 ''Invalid webhook signature'') else None))"

text \<open>Lines 519 to 521 and 528 to 530: the update of a tracked record.\<close>

definition track_merged :: "int option \<Rightarrow> string \<Rightarrow> app_state \<Rightarrow> app_state" where
  "track_merged key now s =
     (case key of
        None \<Rightarrow> s
      | Some n \<Rightarrow>
          (case submitted_prs s n of
             None \<Rightarrow> s
           | Some r \<Rightarrow>
               s\<lparr>submitted_prs :=
                    (submitted_prs s)(n \<mapsto> r\<lparr>status := ''merged'', merged_at := Some now\<rparr>)\<rparr>))"

definition track_closed :: "int option \<Rightarrow> string \<Rightarrow> app_state \<Rightarrow> app_state" where
  "track_closed key now s =
     (case key of
        None \<Rightarrow> s
      | Some n \<Rightarrow>
          (case submitted_prs s n of
             None \<Rightarrow> s
           | Some r \<Rightarrow>
               s\<lparr>submitted_prs :=
                    (submitted_prs s)(n \<mapsto> r\<lparr>status := ''closed'', closed_at := Some now\<rparr>)\<rparr>))"

text \<open>
  Lines 503 to 536. The result, the state after the request and the number of calls of
  \<open>refresh_notes_cache(force=True)\<close>.
\<close>

definition pull_request_event ::
  "environ \<Rightarrow> world \<Rightarrow> json \<Rightarrow> app_state \<Rightarrow> (failure + reply) \<times> app_state \<times> nat" where
  "pull_request_event env w payload s =
     (case json_get payload ''action'' (JStr []) of
        Inl e \<Rightarrow> (Inl (Uncaught e), s, 0)
      | Inr action \<Rightarrow>
     (case json_get payload ''pull_request'' (JObj []) of
        Inl e \<Rightarrow> (Inl (Uncaught e), s, 0)
      | Inr pr \<Rightarrow>
     (case json_get pr ''number'' JNull of
        Inl e \<Rightarrow> (Inl (Uncaught e), s, 0)
      | Inr number \<Rightarrow>
          if action = JStr ''closed'' then
            (case json_get pr ''merged'' (JBool False) of
               Inl e \<Rightarrow> (Inl (Uncaught e), s, 0)
             | Inr is_merged \<Rightarrow>
                 if truthy is_merged then
                   (let s1 = fst (snd (refresh_notes_cache env w True s))
                    in case int_key number of
                         Inl e \<Rightarrow> (Inl (Uncaught e), s1, 1)
                       | Inr key \<Rightarrow>
                           (Inr (Merged_refreshed number), track_merged key (utcnow w) s1, 1))
                 else
                   (case int_key number of
                      Inl e \<Rightarrow> (Inl (Uncaught e), s, 0)
                    | Inr key \<Rightarrow>
                        (Inr (Closed_unmerged number), track_closed key (utcnow w) s, 0)))
          else (Inr Received, s, 0))))"

text \<open>Lines 539 to 546.\<close>

definition push_event ::
  "environ \<Rightarrow> world \<Rightarrow> json \<Rightarrow> app_state \<Rightarrow> (failure + reply) \<times> app_state \<times> nat" where
  "push_event env w payload s =
     (case json_get payload ''ref'' (JStr []) of
        Inl e \<Rightarrow> (Inl (Uncaught e), s, 0)
      | Inr ref \<Rightarrow>
          (let default_branch = (if falsy (KNOWLEDGE_BRANCH env) then ''main''
                                 else the (KNOWLEDGE_BRANCH env))
           in if ref = JStr (''refs/heads/'' @ default_branch)
              then (Inr Refreshed, fst (snd (refresh_notes_cache env w True s)), 1)
              else (Inr Received, s, 0)))"

definition github_webhook ::
  "(string \<Rightarrow> bytes \<Rightarrow> bytes) \<Rightarrow> environ \<Rightarrow> world \<Rightarrow> request \<Rightarrow> app_state
     \<Rightarrow> (failure + reply) \<times> app_state \<times> nat" where
  "github_webhook hmac_sha256 env w req s =
     (case check_signature hmac_sha256 env req of
        Some f \<Rightarrow> (Inl f, s, 0)
      | None \<Rightarrow>
          (let event_type = header_or_empty (github_event req)
           in case json_body req of
                None \<Rightarrow> (Inl (HTTPException 400 ''Invalid JSON payload''), s, 0)
              | Some payload \<Rightarrow>
                  if event_type = ''pull_request'' then pull_request_event env w payload s
                  else if event_type = ''push'' then push_event env w payload s
                  else (Inr Received, s, 0)))"

text \<open>Lines 459 to 464: the poll copies the remote status into a tracked record.\<close>

definition track_status :: "int \<Rightarrow> pr_status \<Rightarrow> app_state \<Rightarrow> app_state" where
  "track_status n res s =
     (case submitted_prs s n of
        None \<Rightarrow> s
      | Some r \<Rightarrow>
          s\<lparr>submitted_prs :=
               (submitted_prs s)(n \<mapsto>
                  r\<lparr>status := r_status res,
                    merged_at := (if falsy (r_merged_at res) then merged_at r else r_merged_at res),
                    closed_at := (if falsy (r_closed_at res) then closed_at r else r_closed_at res)\<rparr>)\<rparr>)"

definition get_pr_status_endpoint ::
  "environ \<Rightarrow> world \<Rightarrow> int \<Rightarrow> app_state \<Rightarrow> (failure + pr_status) \<times> app_state" where
  "get_pr_status_endpoint env w n s =
     (if falsy (KNOWLEDGE_REPO env)
      then (Inl (HTTPException 500 ''KNOWLEDGE_REPO environment variable not set''), s)
      else
        (case get_pr_status (github_client w) (the (KNOWLEDGE_REPO env)) n of
           Inr res \<Rightarrow> (Inr res, track_status n res s)
         | Inl (ValueError msg) \<Rightarrow> (Inl (HTTPException 500 msg), s)
         | Inl e \<Rightarrow> (Inl (HTTPException 404 ''PR not found or error''), s)))"

text \<open>A history of webhook requests and status polls, each with what it observes.\<close>

datatype operation =
    Webhook world request
  | Poll world int

fun step :: "(string \<Rightarrow> bytes \<Rightarrow> bytes) \<Rightarrow> environ \<Rightarrow> operation \<Rightarrow> app_state \<Rightarrow> app_state" where
  "step hmac_sha256 env (Webhook w req) s = fst (snd (github_webhook hmac_sha256 env w req s))"
| "step hmac_sha256 env (Poll w n) s = snd (get_pr_status_endpoint env w n s)"

fun run :: "(string \<Rightarrow> bytes \<Rightarrow> bytes) \<Rightarrow> environ \<Rightarrow> operation list \<Rightarrow> app_state \<Rightarrow> app_state" where
  "run hmac_sha256 env [] s = s"
| "run hmac_sha256 env (op # ops) s = run hmac_sha256 env ops (step hmac_sha256 env op s)"

section \<open>Example inputs\<close>

text \<open>Eleven notes whose content holds the word \<open>flag\<close>.\<close>

definition eleven_notes :: note_store where
  "eleven_notes =
     map (\<lambda>p. (p, [(''title'', ''T''), (''content'', ''flag'')]))
       [''a'', ''b'', ''c'', ''d'', ''e'', ''f'', ''g'', ''h'', ''i'', ''j'', ''k'']"

text \<open>
  A repository with one note and a manifest that puts it under \<open>Onboarding\<close>, an
  environment that names the repository, and what a call sees at a given time.
\<close>

definition example_repo :: repository where
  "example_repo =
     \<lparr>default_branch = ''main'',
      clusters_json = (\<lambda>ref. Inr (Some [\<lparr>cluster_name = Some ''Onboarding'',
                                          cluster_notes = Some [''welcome.md'']\<rparr>])),
      root_contents = (\<lambda>ref. Inr [\<lparr>file_type = ''file'', file_name = ''welcome.md'',
                                    decoded_content = Inr ''# Welcome''\<rparr>]),
      get_pull = (\<lambda>n. Inr \<lparr>merged = False, state = ''open'', remote_merged_at = None,
                           remote_closed_at = None, html_url = ''https://example.org/pull''\<rparr>)\<rparr>"

definition example_store :: note_store where
  "example_store =
     [(''welcome.md'', [(''content'', ''# Welcome''), (''title'', ''Welcome''),
                        (''path'', ''welcome.md''), (''topic'', ''Onboarding'')])]"

definition example_env :: environ where
  "example_env =
     \<lparr>KNOWLEDGE_REPO = Some ''org/kb'', KNOWLEDGE_BRANCH = None, GITHUB_WEBHOOK_SECRET = None\<rparr>"

definition world_at :: "real \<Rightarrow> world" where
  "world_at t =
     \<lparr>github_client = Inr (Some (\<lambda>name. Inr example_repo)),
      time_check = t, time_fetched = t, utcnow = ''2024-05-01T12:00:00''\<rparr>"

definition offline_at :: "real \<Rightarrow> world" where
  "offline_at t =
     \<lparr>github_client = Inl (RemoteError ''connection refused''),
      time_check = t, time_fetched = t, utcnow = ''2024-05-01T12:00:00''\<rparr>"

definition initial_state :: app_state where
  "initial_state = \<lparr>notes_cache = [], cache_timestamp = 0, submitted_prs = Map.empty\<rparr>"

definition fetched_state :: app_state where
  "fetched_state =
     \<lparr>notes_cache = example_store, cache_timestamp = 1000, submitted_prs = Map.empty\<rparr>"

text \<open>The staleness of the specification: \<open>now - fetched_at > TTL\<close>.\<close>

definition stale_as_specified :: "real \<Rightarrow> real \<Rightarrow> bool" where
  "stale_as_specified now fetched_at = (now - fetched_at > 300)"

text \<open>A ledger that tracks pull request 7, and the webhook request that reports it closed.\<close>

definition tracked_pr :: submitted_pr where
  "tracked_pr =
     \<lparr>pr_number = 7, pr_url = ''https://example.org/pull'', branch = ''kb/welcome-1'',
      user_email = ''ann@example.org'', files = [''welcome.md''], status = ''open'',
      submitted_at = ''2024-05-01T09:00:00'', merged_at = None, closed_at = None\<rparr>"

definition tracking_state :: app_state where
  "tracking_state = fetched_state\<lparr>submitted_prs := [7 \<mapsto> tracked_pr]\<rparr>"

definition closed_event :: "int \<Rightarrow> bool \<Rightarrow> request" where
  "closed_event n m =
     \<lparr>hub_signature_256 = None, github_event = Some ''pull_request'', raw_body = [],
      json_body = Some (JObj [(''action'', JStr ''closed''),
                              (''pull_request'', JObj [(''number'', JInt n), (''merged'', JBool m)])])\<rparr>"

definition no_hmac :: "string \<Rightarrow> bytes \<Rightarrow> bytes" where
  "no_hmac key msg = []"

text \<open>
  The operation is a status poll of pull request \<open>n\<close> that finds it open at the remote; and
  the ledger holds pull request \<open>n\<close> as merged or closed.
\<close>

definition finds_open :: "environ \<Rightarrow> int \<Rightarrow> operation \<Rightarrow> bool" where
  "finds_open env n op =
     (case op of
        Webhook w req \<Rightarrow> False
      | Poll w m \<Rightarrow>
          m = n \<and>
          (case get_pr_status (github_client w) (the (KNOWLEDGE_REPO env)) m of
             Inl e \<Rightarrow> False
           | Inr res \<Rightarrow> r_status res = ''open''))"

definition settled :: "app_state \<Rightarrow> int \<Rightarrow> bool" where
  "settled s n =
     (case submitted_prs s n of
        None \<Rightarrow> False
      | Some r \<Rightarrow> status r = ''merged'' \<or> status r = ''closed'')"

text \<open>
  The first heading of the specification: the first line of the content, wherever it
  stands, that starts with \<open>#\<close> and a blank and has text after them; the text, stripped.
\<close>

definition is_heading_line :: "string \<Rightarrow> bool" where
  "is_heading_line l = (prefix ''# '' l \<and> py_strip (drop 2 l) \<noteq> [])"

definition first_heading_as_specified :: "string \<Rightarrow> string option" where
  "first_heading_as_specified content =
     (case filter is_heading_line (py_split (CHR ''\<newline>'') content) of
        [] \<Rightarrow> None
      | l # ls \<Rightarrow> Some (py_strip (drop 2 l)))"

text \<open>The stripped content starts with \<open>#\<close> and a whitespace character.\<close>

definition heading_at_start :: "string \<Rightarrow> bool" where
  "heading_at_start s = (prefix ''#'' s \<and> 1 < length s \<and> py_isspace (s ! 1))"

text \<open>
  The slug of the specification: the maximal runs of characters of \<open>[a-z0-9]\<close> in the
  lowercased title, joined by single hyphens.
\<close>

function alnum_runs :: "string \<Rightarrow> string list" where
  "alnum_runs s =
     (case dropWhile (\<lambda>c. \<not> is_az09 c) s of
        [] \<Rightarrow> []
      | c # cs \<Rightarrow> takeWhile is_az09 (c # cs) # alnum_runs (dropWhile is_az09 (c # cs)))"
  by pat_completeness auto
termination
proof (relation "measure length")
  show "wf (measure length)" by simp
next
  fix s :: string and c cs
  assume d: "dropWhile (\<lambda>c. \<not> is_az09 c) s = c # cs"
  have "length (c # cs) \<le> length s"
    using length_dropWhile_le [of "\<lambda>c. \<not> is_az09 c" s] d by simp
  moreover have "is_az09 c" using hd_dropWhile [of "\<lambda>c. \<not> is_az09 c" s] d by simp
  then have "length (dropWhile is_az09 (c # cs)) \<le> length cs"
    by (simp add: length_dropWhile_le)
  ultimately show "(dropWhile is_az09 (c # cs), s) \<in> measure length" by simp
qed

declare alnum_runs.simps [simp del]

fun join_hyphen :: "string list \<Rightarrow> string" where
  "join_hyphen [] = []"
| "join_hyphen [w] = w"
| "join_hyphen (w # v # ws) = w @ ''-'' @ join_hyphen (v # ws)"

definition slug_as_specified :: "string \<Rightarrow> string" where
  "slug_as_specified title = join_hyphen (alnum_runs (py_lower title))"

text \<open>
  The topic assigned to a note at fetch time, as the specification has it: its \<open>topic\<close>
  field, \<open>General\<close> when it has none.
\<close>

definition assigned_topic :: "note_data \<Rightarrow> string" where
  "assigned_topic note_data = dict_get note_data ''topic'' ''General''"

text \<open>
  The groups of a listing by the first directory of the path: the topics in order, and
  the notes of the store under one topic, in the order of the store.
\<close>

definition listed_topics :: "note_store \<Rightarrow> string list" where
  "listed_topics notes = sort (remdups (map (\<lambda>item. topic_of_path (fst item)) notes))"

definition notes_under :: "string \<Rightarrow> note_store \<Rightarrow> listed_note list" where
  "notes_under topic notes =
     map (\<lambda>item. \<lparr>l_path = fst item, l_title = dict_get (snd item) ''title'' (fst item)\<rparr>)
       (filter (\<lambda>item. topic_of_path (fst item) = topic) notes)"

text \<open>The files that a manifest lists.\<close>

definition manifest_files :: "cluster list \<Rightarrow> string set" where
  "manifest_files cs =
     (\<Union>c \<in> set cs. case cluster_notes c of None \<Rightarrow> {} | Some fs \<Rightarrow> set fs)"

text \<open>A store with a note in a directory and a note at the root.\<close>

definition two_notes :: note_store where
  "two_notes =
     [(''welcome.md'', [(''content'', ''# Welcome''), (''title'', ''Welcome''),
                        (''path'', ''welcome.md''), (''topic'', ''Onboarding'')]),
      (''dev-ops/deploy.md'', [(''content'', ''# Deploy''), (''title'', ''Deploy''),
                               (''path'', ''dev-ops/deploy.md''), (''topic'', ''Onboarding'')])]"

section \<open>Properties of search\_knowledge\<close>

lemma collect_matches_filter:
  "collect_matches query ns acc = acc @ map (match_of query) (filter (note_matches query) ns)"
  by (induction ns arbitrary: acc) simp_all

lemma append_matches_concat:
  "append_matches ms result = result @ concat (map format_match ms)"
  by (induction ms arbitrary: result) simp_all

text \<open>
  C9. Called on an empty note store (no \<open>notes\<close> entry in the session state, or an empty
  mapping), \<open>search_knowledge\<close> returns the "no knowledge base loaded" message for every
  query; the test comes before any other operation of the function, so nothing can raise.
\<close>

theorem search_knowledge_empty_store:
  "search_knowledge query None = ''No knowledge base loaded. Please ensure notes are available.''
   \<and> search_knowledge query (Some []) = ''No knowledge base loaded. Please ensure notes are available.''"
  by (simp add: search_knowledge_def state_get_notes_def no_knowledge_base_def)

theorem search_knowledge_empty_store_witness:
  "search_knowledge ''flag'' None = ''No knowledge base loaded. Please ensure notes are available.''
   \<and> search_knowledge ''flag'' (Some []) = ''No knowledge base loaded. Please ensure notes are available.''"
  using search_knowledge_empty_store [of "''flag''"] by simp

text \<open>
  C10. For every ASCII query over every non-empty store of notes with ASCII titles and
  contents, with at least one matching note, the result is the header with the number of
  matching notes, then one item for each of the first ten matching notes in the order of
  the store and for no other, then, exactly when more than ten notes match, the sentence
  that counts the omitted ones.
\<close>

theorem search_knowledge_limit:
  assumes "notes \<noteq> []"
    and "found = filter (note_matches query) notes"
    and "found \<noteq> []"
    and "isascii query"
    and "list_all ascii_note notes"
  shows "search_knowledge query (Some notes) =
           ''Found '' @ str_of_nat (length found) @ '' note(s) matching '' @ [CHR 0x27] @ query
             @ [CHR 0x27] @ '':\<newline>\<newline>''
           @ concat (map (\<lambda>item. format_match (match_of query item)) (take 10 found))
           @ (if length found > 10
              then ''...and '' @ str_of_nat (length found - 10) @ '' more results.''
              else [])
         \<and> length (take 10 found) \<le> 10"
proof -
  have m: "collect_matches query notes [] = map (match_of query) found"
    using assms(2) by (simp add: collect_matches_filter)
  have ne: "map (match_of query) found \<noteq> []"
    using assms(3) by simp
  show ?thesis
    using assms(1) ne
    by (simp add: search_knowledge_def state_get_notes_def m append_matches_concat
        found_header_def more_results_def take_map comp_def Let_def del: str_of_nat.simps)
qed

theorem search_knowledge_limit_witness:
  "suffix ''...and 1 more results.'' (search_knowledge ''flag'' (Some eleven_notes))"
proof -
  have a: "eleven_notes \<noteq> []" by (simp add: eleven_notes_def)
  have f: "filter (note_matches ''flag'') eleven_notes = eleven_notes" by code_simp
  have g: "filter (note_matches ''flag'') eleven_notes \<noteq> []" using a f by simp
  have n: "length eleven_notes = 11" by (simp add: eleven_notes_def)
  have s: "str_of_nat (Suc 0) = ''1''" by code_simp
  have q: "isascii ''flag''" by code_simp
  have l: "list_all ascii_note eleven_notes" by code_simp
  have "search_knowledge ''flag'' (Some eleven_notes) =
          (''Found '' @ str_of_nat 11 @ '' note(s) matching '' @ [CHR 0x27] @ ''flag''
             @ [CHR 0x27] @ '':\<newline>\<newline>''
           @ concat (map (\<lambda>item. format_match (match_of ''flag'' item)) (take 10 eleven_notes)))
          @ ''...and 1 more results.''"
    using search_knowledge_limit [OF a refl g q l] unfolding f n
    by (simp add: s del: str_of_nat.simps)
  then show ?thesis by (rule suffixI)
qed

section \<open>Properties of verify\_webhook\_signature\<close>

lemma hex_digit_ascii: "n < 16 \<Longrightarrow> (of_char (hex_digit n) :: nat) < 128"
proof -
  assume "n < 16"
  then have "n \<in> {0..<16}" by simp
  then have "n \<in> set [0..<16]" by simp
  then show ?thesis unfolding hex_digit_def
    by (simp add: upt_rec del: set_upt) auto
qed

lemma hex_digit_inj: "m < 16 \<Longrightarrow> n < 16 \<Longrightarrow> hex_digit m = hex_digit n \<Longrightarrow> m = n"
proof -
  have d: "distinct ''0123456789abcdef''" by simp
  have l: "length ''0123456789abcdef'' = 16" by simp
  show "m < 16 \<Longrightarrow> n < 16 \<Longrightarrow> hex_digit m = hex_digit n \<Longrightarrow> m = n"
    unfolding hex_digit_def using d l nth_eq_iff_index_eq by metis
qed

lemma of_char_lt_256: "(of_char c :: nat) < 256"
  by (cases c) simp

lemma of_char_div16: "(of_char c :: nat) div 16 < 16"
  using of_char_lt_256 [of c] by presburger

lemma isascii_hexdigest: "isascii (hexdigest d)"
proof (induction d)
  case Nil
  then show ?case by (simp add: hexdigest_def isascii_def)
next
  case (Cons b d)
  have h: "(of_char b :: nat) div 16 < 16" by (rule of_char_div16)
  have l: "(of_char b :: nat) mod 16 < 16" by simp
  from Cons show ?case
    using hex_digit_ascii [OF h] hex_digit_ascii [OF l]
    by (simp add: hexdigest_def isascii_def)
qed

lemma hexdigest_inj: "hexdigest a = hexdigest b \<Longrightarrow> a = b"
proof (induction a arbitrary: b)
  case Nil
  then show ?case by (cases b) (simp_all add: hexdigest_def)
next
  case (Cons x a)
  then obtain y b' where b: "b = y # b'" by (cases b) (simp_all add: hexdigest_def)
  from Cons.prems b have hi: "hex_digit ((of_char x :: nat) div 16) = hex_digit ((of_char y :: nat) div 16)"
    and lo: "hex_digit ((of_char x :: nat) mod 16) = hex_digit ((of_char y :: nat) mod 16)"
    and rest: "hexdigest a = hexdigest b'"
    by (simp_all add: hexdigest_def)
  have "(of_char x :: nat) div 16 = (of_char y :: nat) div 16"
    using hex_digit_inj [OF of_char_div16 of_char_div16 hi] .
  moreover have "(of_char x :: nat) mod 16 = (of_char y :: nat) mod 16"
    using hex_digit_inj [OF _ _ lo] by simp
  ultimately have "(of_char x :: nat) = of_char y"
    by (metis div_mult_mod_eq)
  then have "x = y" by simp
  with Cons.IH [OF rest] b show ?case by simp
qed

lemma isascii_append: "isascii (a @ b) = (isascii a \<and> isascii b)"
  by (simp add: isascii_def)

lemma isascii_expected: "isascii (''sha256='' @ hexdigest d)"
proof -
  have "isascii ''sha256=''" by (simp add: isascii_def)
  then show ?thesis unfolding isascii_append using isascii_hexdigest by blast
qed

text \<open>
  C4. \<open>verify_webhook_signature\<close> returns true exactly when the header is present, not
  empty, starts with \<open>sha256=\<close> and is \<open>sha256=\<close> followed by the lowercase hexadecimal
  digest of the HMAC of the payload under the secret. It returns false for a missing or
  empty header and for one without the prefix, and the signature of one payload is
  rejected for every payload with a different HMAC. The HMAC function is any function.
\<close>

theorem verify_webhook_signature_iff:
  "(verify_webhook_signature hmac_sha256 payload signature secret = Inr True)
     = (\<exists>sig. signature = Some sig \<and> sig \<noteq> [] \<and> prefix ''sha256='' sig
             \<and> sig = ''sha256='' @ hexdigest (hmac_sha256 secret payload))
   \<and> ((signature = None \<or> signature = Some [] \<or> \<not> prefix ''sha256='' (the signature))
        \<longrightarrow> verify_webhook_signature hmac_sha256 payload signature secret = Inr False)
   \<and> (hmac_sha256 secret payload' \<noteq> hmac_sha256 secret payload
        \<longrightarrow> verify_webhook_signature hmac_sha256 payload'
              (Some (''sha256='' @ hexdigest (hmac_sha256 secret payload))) secret = Inr False)"
proof (intro conjI impI)
  show "(verify_webhook_signature hmac_sha256 payload signature secret = Inr True)
     = (\<exists>sig. signature = Some sig \<and> sig \<noteq> [] \<and> prefix ''sha256='' sig
             \<and> sig = ''sha256='' @ hexdigest (hmac_sha256 secret payload))"
  proof (cases signature)
    case None
    then show ?thesis by (simp add: verify_webhook_signature_def falsy_def)
  next
    case (Some sig)
    show ?thesis
    proof (cases "sig = [] \<or> \<not> prefix ''sha256='' sig")
      case True
      with Some show ?thesis
        by (auto simp: verify_webhook_signature_def falsy_def)
    next
      case False
      with Some show ?thesis
        using isascii_expected [of "hmac_sha256 secret payload"]
        by (auto simp: verify_webhook_signature_def falsy_def compare_digest_def Let_def)
    qed
  qed
next
  assume "signature = None \<or> signature = Some [] \<or> \<not> prefix ''sha256='' (the signature)"
  then show "verify_webhook_signature hmac_sha256 payload signature secret = Inr False"
    by (auto simp: verify_webhook_signature_def falsy_def)
next
  assume d: "hmac_sha256 secret payload' \<noteq> hmac_sha256 secret payload"
  then have "hexdigest (hmac_sha256 secret payload') \<noteq> hexdigest (hmac_sha256 secret payload)"
    using hexdigest_inj by blast
  then show "verify_webhook_signature hmac_sha256 payload'
              (Some (''sha256='' @ hexdigest (hmac_sha256 secret payload))) secret = Inr False"
    using isascii_expected [of "hmac_sha256 secret payload"]
      isascii_expected [of "hmac_sha256 secret payload'"]
    by (simp add: verify_webhook_signature_def falsy_def compare_digest_def Let_def)
qed

theorem verify_webhook_signature_iff_witness:
  "verify_webhook_signature (\<lambda>key msg. key @ msg) ''ab'' (Some ''sha256=6b6162'') ''k'' = Inr True
   \<and> verify_webhook_signature (\<lambda>key msg. key @ msg) ''ab'' None ''k'' = Inr False
   \<and> verify_webhook_signature (\<lambda>key msg. key @ msg) ''ab'' (Some ''6b6162'') ''k'' = Inr False
   \<and> verify_webhook_signature (\<lambda>key msg. key @ msg) ''ac'' (Some ''sha256=6b6162'') ''k'' = Inr False"
proof -
  have h: "hexdigest (''k'' @ ''ab'') = ''6b6162''" by code_simp
  have p: "\<not> prefix ''sha256='' ''6b6162''" by simp
  show ?thesis
    using verify_webhook_signature_iff [of "\<lambda>key msg. key @ msg" "''ab''" "Some ''sha256=6b6162''" "''k''" "''ac''"]
      verify_webhook_signature_iff [of "\<lambda>key msg. key @ msg" "''ab''" None "''k''" "''ac''"]
      verify_webhook_signature_iff [of "\<lambda>key msg. key @ msg" "''ab''" "Some ''6b6162''" "''k''" "''ac''"]
    unfolding h using p by simp
qed

section \<open>Properties of the cache\<close>

lemma example_fetch:
  "fetch_knowledge_base (Inr (Some (\<lambda>name. Inr example_repo))) ''org/kb'' None = Inr example_store"
  by code_simp

lemma startup_fetch:
  "refresh_notes_cache example_env (world_at 1000) True initial_state
     = (example_store, fetched_state, 1)"
  by (simp add: refresh_notes_cache_def try_fetch_def example_env_def world_at_def falsy_def
      example_fetch initial_state_def fetched_state_def)

lemma refresh_fresh:
  assumes "notes_cache s \<noteq> []" and "time_check w < cache_timestamp s + 300"
  shows "refresh_notes_cache env w False s = (notes_cache s, s, 0)"
  using assms by (simp add: refresh_notes_cache_def CACHE_TTL_def)

lemma refresh_stale:
  assumes "time_check w \<ge> cache_timestamp s + 300" and "\<not> falsy (KNOWLEDGE_REPO env)"
  shows "snd (snd (refresh_notes_cache env w False s)) = 1"
  using assms by (auto simp: refresh_notes_cache_def CACHE_TTL_def split: sum.splits)

lemma refresh_fetched:
  assumes "refresh_notes_cache env w force s = (ns, s', Suc 0)"
    and "fetch_knowledge_base (github_client w) (the (KNOWLEDGE_REPO env)) (KNOWLEDGE_BRANCH env) = Inr ns"
  shows "s' = s\<lparr>notes_cache := ns, cache_timestamp := time_fetched w\<rparr> \<and> \<not> falsy (KNOWLEDGE_REPO env)"
  using assms by (auto simp: refresh_notes_cache_def try_fetch_def split: if_splits)

text \<open>
  C1, as amended. Let a call of \<open>refresh_notes_cache\<close> have fetched a non-empty store, the
  fetch completing at time \<open>T\<close>. A later call without \<open>force\<close> whose clock reads less than
  \<open>T + 300\<close> returns the cached store, leaves the state alone and makes no remote fetch;
  one whose clock reads \<open>T + 300\<close> or more makes exactly one remote fetch. The cache is
  stale from \<open>now - fetched_at = 300\<close> on, not only beyond it.
\<close>

theorem refresh_notes_cache_ttl:
  assumes "refresh_notes_cache env w force s = (ns, s', 1)"
    and "fetch_knowledge_base (github_client w) (the (KNOWLEDGE_REPO env)) (KNOWLEDGE_BRANCH env) = Inr ns"
    and "ns \<noteq> []"
  shows "(time_check w' < time_fetched w + 300
            \<longrightarrow> refresh_notes_cache env w' False s' = (ns, s', 0))
       \<and> (time_check w' \<ge> time_fetched w + 300
            \<longrightarrow> snd (snd (refresh_notes_cache env w' False s')) = 1)"
proof -
  from refresh_fetched [of env w force s ns s'] assms(1,2)
  have s': "s' = s\<lparr>notes_cache := ns, cache_timestamp := time_fetched w\<rparr>"
    and repo: "\<not> falsy (KNOWLEDGE_REPO env)" by simp_all
  have c: "notes_cache s' = ns" and t: "cache_timestamp s' = time_fetched w"
    by (simp_all add: s')
  show ?thesis
    using refresh_fresh [of s' w' env] refresh_stale [of s' w' env] assms(3) repo
    by (simp add: c t)
qed

theorem refresh_notes_cache_ttl_witness:
  "refresh_notes_cache example_env (world_at 1299) False fetched_state = (example_store, fetched_state, 0)
   \<and> snd (snd (refresh_notes_cache example_env (world_at 1300) False fetched_state)) = 1"
proof -
  have ne: "example_store \<noteq> []" by (simp add: example_store_def)
  have f: "fetch_knowledge_base (github_client (world_at 1000)) (the (KNOWLEDGE_REPO example_env))
             (KNOWLEDGE_BRANCH example_env) = Inr example_store"
    by (simp add: world_at_def example_env_def example_fetch)
  have a: "time_check (world_at 1299) < time_fetched (world_at 1000) + 300"
    and b: "time_check (world_at 1300) \<ge> time_fetched (world_at 1000) + 300"
    by (simp_all add: world_at_def)
  from refresh_notes_cache_ttl [OF startup_fetch f ne, of "world_at 1299"]
       refresh_notes_cache_ttl [OF startup_fetch f ne, of "world_at 1300"] a b
  show ?thesis by simp
qed

text \<open>
  C1 as stated fails at the boundary: with the cache fetched at 1000 and the clock at
  1300 the cache is not stale in the sense \<open>now - fetched_at > 300\<close>, yet the call fetches.
\<close>

theorem stale_at_ttl_counterexample:
  "\<not> stale_as_specified (time_check (world_at 1300)) (cache_timestamp fetched_state)
   \<and> refresh_notes_cache example_env (world_at 1300) False fetched_state
       = (example_store, fetched_state\<lparr>cache_timestamp := 1300\<rparr>, 1)"
  by (simp add: stale_as_specified_def refresh_notes_cache_def try_fetch_def CACHE_TTL_def
      world_at_def example_env_def falsy_def example_fetch fetched_state_def)

text \<open>
  C2. In every call of \<open>refresh_notes_cache\<close> that makes a remote fetch which fails, with
  whatever exception, the call returns the previous store when that is not empty and the
  empty store otherwise, and leaves the state alone. The result is a value in both cases:
  the handler catches every exception of the fetch.
\<close>

theorem refresh_notes_cache_degrades:
  assumes "snd (snd (refresh_notes_cache env w force s)) = 1"
    and "fetch_knowledge_base (github_client w) (the (KNOWLEDGE_REPO env)) (KNOWLEDGE_BRANCH env) = Inl e"
  shows "(notes_cache s \<noteq> [] \<longrightarrow> refresh_notes_cache env w force s = (notes_cache s, s, 1))
       \<and> (notes_cache s = [] \<longrightarrow> refresh_notes_cache env w force s = ([], s, 1))"
  using assms by (auto simp: refresh_notes_cache_def try_fetch_def split: if_splits)

theorem refresh_notes_cache_degrades_witness:
  "refresh_notes_cache example_env (offline_at 2000) False fetched_state = (example_store, fetched_state, 1)
   \<and> refresh_notes_cache example_env (offline_at 2000) False initial_state = ([], initial_state, 1)"
proof -
  have f: "fetch_knowledge_base (github_client (offline_at 2000)) (the (KNOWLEDGE_REPO example_env))
             (KNOWLEDGE_BRANCH example_env) = Inl (RemoteError ''connection refused'')"
    by (simp add: offline_at_def fetch_knowledge_base_def)
  have a: "snd (snd (refresh_notes_cache example_env (offline_at 2000) False fetched_state)) = 1"
    by (simp add: refresh_notes_cache_def try_fetch_def CACHE_TTL_def offline_at_def example_env_def
        falsy_def fetched_state_def fetch_knowledge_base_def example_store_def)
  have b: "snd (snd (refresh_notes_cache example_env (offline_at 2000) False initial_state)) = 1"
    by (simp add: refresh_notes_cache_def try_fetch_def CACHE_TTL_def offline_at_def example_env_def
        falsy_def initial_state_def fetch_knowledge_base_def)
  have c: "notes_cache fetched_state = example_store" "example_store \<noteq> []"
    "notes_cache initial_state = []"
    by (simp_all add: fetched_state_def example_store_def initial_state_def)
  from refresh_notes_cache_degrades [OF a f] refresh_notes_cache_degrades [OF b f] c
  show ?thesis by simp
qed

section \<open>Properties of the webhook\<close>

lemma refresh_keeps_ledger:
  "submitted_prs (fst (snd (refresh_notes_cache env w force s))) = submitted_prs s"
  by (auto simp: refresh_notes_cache_def try_fetch_def split: sum.splits)

text \<open>
  C3. Take a request that passes the signature check (or no secret is configured), with
  event \<open>pull_request\<close>, action \<open>closed\<close>, pull request number \<open>n\<close> and merged flag \<open>m\<close>.
  If \<open>m\<close> holds and \<open>n\<close> is in the ledger, the record gets status \<open>merged\<close> and the merge
  timestamp, and \<open>refresh_notes_cache(force=True)\<close> is called exactly once. If \<open>m\<close> does not
  hold and \<open>n\<close> is in the ledger, the record gets status \<open>closed\<close> and the close
  timestamp, nothing is refreshed and the cache is as before. If \<open>n\<close> is not in the
  ledger, the request is answered with a reply and the ledger is unchanged.
\<close>

theorem github_webhook_closed:
  assumes "check_signature hmac_sha256 env req = None"
    and "github_event req = Some ''pull_request''"
    and "json_body req = Some (JObj payload)"
    and "map_of payload ''action'' = Some (JStr ''closed'')"
    and "map_of payload ''pull_request'' = Some (JObj pr)"
    and "map_of pr ''number'' = Some (JInt n)"
    and "map_of pr ''merged'' = Some (JBool m)"
  shows "(m \<and> submitted_prs s n = Some r \<longrightarrow>
            github_webhook hmac_sha256 env w req s =
              (Inr (Merged_refreshed (JInt n)),
               (fst (snd (refresh_notes_cache env w True s)))
                 \<lparr>submitted_prs :=
                    (submitted_prs s)(n \<mapsto> r\<lparr>status := ''merged'', merged_at := Some (utcnow w)\<rparr>)\<rparr>,
               1))
       \<and> (\<not> m \<and> submitted_prs s n = Some r \<longrightarrow>
            github_webhook hmac_sha256 env w req s =
              (Inr (Closed_unmerged (JInt n)),
               s\<lparr>submitted_prs :=
                    (submitted_prs s)(n \<mapsto> r\<lparr>status := ''closed'', closed_at := Some (utcnow w)\<rparr>)\<rparr>,
               0))
       \<and> (submitted_prs s n = None \<longrightarrow>
            (\<exists>rep s' k. github_webhook hmac_sha256 env w req s = (Inr rep, s', k)
                       \<and> submitted_prs s' = submitted_prs s))"
proof -
  have ev: "header_or_empty (github_event req) = ''pull_request''"
    using assms(2) by (simp add: header_or_empty_def)
  have w: "github_webhook hmac_sha256 env w req s = pull_request_event env w (JObj payload) s"
    using assms(1,3) ev by (simp add: github_webhook_def)
  have g: "json_get (JObj payload) ''action'' (JStr []) = Inr (JStr ''closed'')"
    "json_get (JObj payload) ''pull_request'' (JObj []) = Inr (JObj pr)"
    "json_get (JObj pr) ''number'' JNull = Inr (JInt n)"
    "json_get (JObj pr) ''merged'' (JBool False) = Inr (JBool m)"
    using assms(4-7) by (simp_all add: json_get_def dict_get_def)
  have p: "pull_request_event env w (JObj payload) s =
            (if m then (Inr (Merged_refreshed (JInt n)),
                        track_merged (Some n) (utcnow w) (fst (snd (refresh_notes_cache env w True s))), 1)
             else (Inr (Closed_unmerged (JInt n)), track_closed (Some n) (utcnow w) s, 0))"
    by (simp add: pull_request_event_def g truthy_def int_key_def Let_def)
  show ?thesis
    unfolding w p
    by (auto simp: track_merged_def track_closed_def refresh_keeps_ledger)
qed

theorem github_webhook_closed_witness:
  "github_webhook no_hmac example_env (world_at 2000) (closed_event 7 True) tracking_state =
     (Inr (Merged_refreshed (JInt 7)),
      \<lparr>notes_cache = example_store, cache_timestamp = 2000,
       submitted_prs = [7 \<mapsto> tracked_pr\<lparr>status := ''merged'', merged_at := Some ''2024-05-01T12:00:00''\<rparr>]\<rparr>,
      1)
   \<and> github_webhook no_hmac example_env (world_at 2000) (closed_event 7 False) tracking_state =
     (Inr (Closed_unmerged (JInt 7)),
      \<lparr>notes_cache = example_store, cache_timestamp = 1000,
       submitted_prs = [7 \<mapsto> tracked_pr\<lparr>status := ''closed'', closed_at := Some ''2024-05-01T12:00:00''\<rparr>]\<rparr>,
      0)
   \<and> submitted_prs (fst (snd (github_webhook no_hmac example_env (world_at 2000) (closed_event 8 True) tracking_state)))
       = submitted_prs tracking_state"
proof -
  have c: "check_signature no_hmac example_env (closed_event k b) = None" for k b
    by (simp add: check_signature_def example_env_def falsy_def)
  have e: "github_event (closed_event k b) = Some ''pull_request''" for k b
    by (simp add: closed_event_def)
  have j: "json_body (closed_event k b) =
             Some (JObj [(''action'', JStr ''closed''),
                         (''pull_request'', JObj [(''number'', JInt k), (''merged'', JBool b)])])" for k b
    by (simp add: closed_event_def)
  have a: "map_of [(''action'', JStr ''closed''),
                   (''pull_request'', JObj [(''number'', JInt k), (''merged'', JBool b)])] ''action''
             = Some (JStr ''closed'')" for k b by simp
  have q: "map_of [(''action'', JStr ''closed''),
                   (''pull_request'', JObj [(''number'', JInt k), (''merged'', JBool b)])] ''pull_request''
             = Some (JObj [(''number'', JInt k), (''merged'', JBool b)])" for k b by simp
  have n: "map_of [(''number'', JInt k), (''merged'', JBool b)] ''number'' = Some (JInt k)" for k b
    by simp
  have m: "map_of [(''number'', JInt k), (''merged'', JBool b)] ''merged'' = Some (JBool b)" for k b
    by simp
  have t7: "submitted_prs tracking_state 7 = Some tracked_pr"
    and t8: "submitted_prs tracking_state 8 = None"
    by (simp_all add: tracking_state_def)
  have r: "fst (snd (refresh_notes_cache example_env (world_at 2000) True tracking_state))
             = tracking_state\<lparr>cache_timestamp := 2000\<rparr>"
    by (simp add: refresh_notes_cache_def try_fetch_def world_at_def example_env_def falsy_def
        example_fetch tracking_state_def fetched_state_def)
  have i1: "True \<and> submitted_prs tracking_state 7 = Some tracked_pr" using t7 by simp
  have i2: "\<not> False \<and> submitted_prs tracking_state 7 = Some tracked_pr" using t7 by simp
  from github_webhook_closed [where w = "world_at 2000" and s = tracking_state and r = tracked_pr
         and n = 7 and m = True, OF c e j a q n m]
       github_webhook_closed [where w = "world_at 2000" and s = tracking_state and r = tracked_pr
         and n = 7 and m = False, OF c e j a q n m]
       github_webhook_closed [where w = "world_at 2000" and s = tracking_state and r = tracked_pr
         and n = 8 and m = True, OF c e j a q n m]
  show ?thesis
    using t7 t8 unfolding r
    by (auto simp: tracking_state_def fetched_state_def world_at_def)
qed

section \<open>Properties of the ledger\<close>

lemma settled_same_ledger: "submitted_prs s' = submitted_prs s \<Longrightarrow> settled s' n = settled s n"
  by (simp add: settled_def)

lemma settled_track_merged: "settled s n \<Longrightarrow> settled (track_merged key now s) n"
  by (auto simp: settled_def track_merged_def split: option.splits)

lemma settled_track_closed: "settled s n \<Longrightarrow> settled (track_closed key now s) n"
  by (auto simp: settled_def track_closed_def split: option.splits)

lemma settled_refresh: "settled (fst (snd (refresh_notes_cache env w force s))) n = settled s n"
  by (rule settled_same_ledger) (rule refresh_keeps_ledger)

lemma settled_pull_request_event:
  "settled s n \<Longrightarrow> settled (fst (snd (pull_request_event env w payload s))) n"
  by (auto simp: pull_request_event_def Let_def settled_refresh
      intro!: settled_track_merged settled_track_closed split: sum.splits)

lemma settled_push_event:
  "settled s n \<Longrightarrow> settled (fst (snd (push_event env w payload s))) n"
  by (auto simp: push_event_def Let_def settled_refresh split: sum.splits)

lemma settled_github_webhook:
  "settled s n \<Longrightarrow> settled (fst (snd (github_webhook hmac_sha256 env w req s))) n"
  by (auto simp: github_webhook_def Let_def settled_pull_request_event settled_push_event
      split: option.splits)

lemma get_pr_status_values:
  "get_pr_status client repo_name m = Inr res \<Longrightarrow>
     r_status res = ''merged'' \<or> r_status res = ''closed'' \<or> r_status res = ''open''"
  by (auto simp: get_pr_status_def split: sum.splits option.splits if_splits)

lemma settled_poll:
  assumes "settled s n" and "\<not> finds_open env n (Poll w m)"
  shows "settled (snd (get_pr_status_endpoint env w m s)) n"
proof (cases "get_pr_status (github_client w) (the (KNOWLEDGE_REPO env)) m")
  case (Inl e)
  with assms(1) show ?thesis
    by (cases e) (simp_all add: get_pr_status_endpoint_def)
next
  case (Inr res)
  show ?thesis
  proof (cases "m = n")
    case True
    with assms(2) Inr have "r_status res \<noteq> ''open''"
      by (simp add: finds_open_def)
    with get_pr_status_values [OF Inr]
    have "r_status res = ''merged'' \<or> r_status res = ''closed''" by blast
    with assms(1) Inr True show ?thesis
      by (auto simp: get_pr_status_endpoint_def track_status_def settled_def split: option.splits)
  next
    case False
    with assms(1) Inr show ?thesis
      by (auto simp: get_pr_status_endpoint_def track_status_def settled_def split: option.splits)
  qed
qed

lemma settled_step:
  "settled s n \<Longrightarrow> \<not> finds_open env n op \<Longrightarrow> settled (step hmac_sha256 env op s) n"
  by (cases op) (simp_all add: settled_github_webhook settled_poll)

text \<open>
  C5, as amended. Over every sequence of webhook requests and status polls in which no
  poll of pull request \<open>n\<close> finds it open at the remote, a record of \<open>n\<close> whose status
  is \<open>merged\<close> or \<open>closed\<close> stays in the ledger with status \<open>merged\<close> or \<open>closed\<close>: no
  webhook request sets a status to \<open>open\<close>. (Between \<open>merged\<close> and \<open>closed\<close> the status
  may still change.)
\<close>

theorem settled_never_reopened:
  assumes "list_all (\<lambda>op. \<not> finds_open env n op) ops"
    and "submitted_prs s n = Some r"
    and "status r = ''merged'' \<or> status r = ''closed''"
  shows "\<exists>r'. submitted_prs (run hmac_sha256 env ops s) n = Some r'
              \<and> (status r' = ''merged'' \<or> status r' = ''closed'')"
proof -
  have inv: "settled s0 n \<Longrightarrow> list_all (\<lambda>op. \<not> finds_open env n op) ops
               \<Longrightarrow> settled (run hmac_sha256 env ops s0) n" for s0
  proof (induction ops arbitrary: s0)
    case Nil
    then show ?case by simp
  next
    case (Cons op ops)
    from Cons.prems have "settled (step hmac_sha256 env op s0) n"
      by (simp add: settled_step)
    with Cons.IH Cons.prems show ?case by simp
  qed
  have "settled s n" using assms(2,3) by (simp add: settled_def)
  from inv [OF this assms(1)] show ?thesis
    by (auto simp: settled_def split: option.splits)
qed

theorem settled_never_reopened_witness:
  "\<exists>r'. submitted_prs
          (run no_hmac example_env
             [Webhook (world_at 2000) (closed_event 7 False), Poll (offline_at 2100) 7,
              Webhook (world_at 2200) (closed_event 7 True)]
             (tracking_state\<lparr>submitted_prs := [7 \<mapsto> tracked_pr\<lparr>status := ''merged''\<rparr>]\<rparr>)) 7 = Some r'
        \<and> (status r' = ''merged'' \<or> status r' = ''closed'')"
proof -
  have p: "\<not> finds_open example_env 7 (Poll (offline_at 2100) 7)"
    by (simp add: finds_open_def offline_at_def get_pr_status_def)
  have a: "list_all (\<lambda>op. \<not> finds_open example_env 7 op)
             [Webhook (world_at 2000) (closed_event 7 False), Poll (offline_at 2100) 7,
              Webhook (world_at 2200) (closed_event 7 True)]"
    using p by (simp add: finds_open_def)
  have b: "submitted_prs (tracking_state\<lparr>submitted_prs := [7 \<mapsto> tracked_pr\<lparr>status := ''merged''\<rparr>]\<rparr>) 7
             = Some (tracked_pr\<lparr>status := ''merged''\<rparr>)" by simp
  have c: "status (tracked_pr\<lparr>status := ''merged''\<rparr>) = ''merged''
           \<or> status (tracked_pr\<lparr>status := ''merged''\<rparr>) = ''closed''" by simp
  from settled_never_reopened [OF a b c] show ?thesis .
qed

text \<open>
  C5 as stated fails. A record closed by a webhook request is set back to \<open>open\<close> by a
  status poll that finds the pull request open at the remote (reopened there); and a
  record merged by one webhook request is set to \<open>closed\<close> by a later one.
\<close>

theorem status_resurrected_counterexample:
  "map_option status
     (submitted_prs (run no_hmac example_env [Webhook (world_at 2000) (closed_event 7 False)]
                       tracking_state) 7) = Some ''closed''
   \<and> map_option status
     (submitted_prs (run no_hmac example_env
                       [Webhook (world_at 2000) (closed_event 7 False), Poll (world_at 2100) 7]
                       tracking_state) 7) = Some ''open''
   \<and> map_option status
     (submitted_prs (run no_hmac example_env [Webhook (world_at 2000) (closed_event 7 True)]
                       tracking_state) 7) = Some ''merged''
   \<and> map_option status
     (submitted_prs (run no_hmac example_env
                       [Webhook (world_at 2000) (closed_event 7 True),
                        Webhook (world_at 2100) (closed_event 7 False)]
                       tracking_state) 7) = Some ''closed''"
proof -
  have w: "submitted_prs (fst (snd (github_webhook no_hmac example_env (world_at t) (closed_event 7 b) s)))
             = submitted_prs (if b then track_merged (Some 7) ''2024-05-01T12:00:00'' s
                              else track_closed (Some 7) ''2024-05-01T12:00:00'' s)" for t b s
    by (simp add: github_webhook_def check_signature_def example_env_def falsy_def closed_event_def
        header_or_empty_def pull_request_event_def json_get_def dict_get_def truthy_def int_key_def
        Let_def world_at_def track_merged_def track_closed_def refresh_keeps_ledger
        split: option.splits)
  have p: "get_pr_status_endpoint example_env (world_at t) 7 s
             = (Inr \<lparr>r_pr_number = 7, r_status = ''open'', r_merged_at = None, r_closed_at = None,
                     r_html_url = ''https://example.org/pull''\<rparr>,
                track_status 7 \<lparr>r_pr_number = 7, r_status = ''open'', r_merged_at = None,
                     r_closed_at = None, r_html_url = ''https://example.org/pull''\<rparr> s)" for t s
    by (simp add: get_pr_status_endpoint_def example_env_def falsy_def get_pr_status_def world_at_def
        example_repo_def)
  show ?thesis
    by (simp add: w p track_status_def track_merged_def track_closed_def tracking_state_def
        fetched_state_def tracked_pr_def falsy_def)
qed

section \<open>Properties of extract\_title\_from\_content\<close>

lemma strip_where_last: "strip_where p s \<noteq> [] \<Longrightarrow> \<not> p (last (strip_where p s))"
proof -
  assume ne: "strip_where p s \<noteq> []"
  let ?t = "dropWhile p (rev (dropWhile p s))"
  from ne have t: "?t \<noteq> []" by (simp add: strip_where_def)
  then have "\<not> p (hd ?t)" by (rule hd_dropWhile)
  moreover have "last (strip_where p s) = hd ?t"
    using t by (simp add: strip_where_def last_rev)
  ultimately show ?thesis by simp
qed

lemma newline_isspace: "py_isspace (CHR ''\<newline>'')"
  by (simp add: py_isspace_def)

lemma re_match_heading_stripped:
  assumes "s = py_strip content"
  shows "re_match_heading s =
           (if prefix ''#'' s \<and> length s > 1 \<and> py_isspace (s ! 1)
            then Some (takeWhile (\<lambda>c. c \<noteq> CHR ''\<newline>'') (dropWhile py_isspace (tl s)))
            else None)"
proof (cases s)
  case Nil
  then show ?thesis by (simp add: re_match_heading_def)
next
  case (Cons c rest)
  show ?thesis
  proof (cases "c = CHR ''#'' \<and> rest \<noteq> [] \<and> py_isspace (hd rest)")
    case False
    then have "c \<noteq> CHR ''#'' \<or> takeWhile py_isspace rest = []"
      by (cases rest) auto
    with False Cons show ?thesis
      by (cases rest) (auto simp: re_match_heading_def)
  next
    case True
    then obtain d ds where rest: "rest = d # ds" and d: "py_isspace d" and c: "c = CHR ''#''"
      by (cases rest) auto
    let ?w = "length (takeWhile py_isspace rest)"
    have w: "?w \<ge> 1" using rest d by simp
    have sne: "strip_where py_isspace content \<noteq> []"
      using assms Cons by (metis list.distinct(1) py_strip_def)
    have "\<not> py_isspace (last s)"
      using strip_where_last [OF sne] assms by (simp add: py_strip_def)
    then have l: "\<not> py_isspace (last rest)" using Cons rest by simp
    have "last rest \<in> set rest" using rest by simp
    with l have dw: "dropWhile py_isspace rest \<noteq> []" by auto
    then obtain x xs where x: "dropWhile py_isspace rest = x # xs"
      by (cases "dropWhile py_isspace rest") auto
    then have nx: "\<not> py_isspace x" using hd_dropWhile [OF dw] by simp
    then have xn: "x \<noteq> CHR ''\<newline>''" using newline_isspace by auto
    have dr: "drop ?w rest = x # xs" using x by (simp add: dropWhile_eq_drop)
    have hg: "heading_group rest ?w = Some (takeWhile (\<lambda>c. c \<noteq> CHR ''\<newline>'') (x # xs))"
      unfolding heading_group_def dr using xn by simp
    have "[1 ..< Suc ?w] = [1 ..< ?w] @ [?w]" using w by simp
    then have "rev [1 ..< Suc ?w] = ?w # rev [1 ..< ?w]" by simp
    then have "first_some (heading_group rest) (rev [1 ..< Suc ?w])
                 = Some (takeWhile (\<lambda>c. c \<noteq> CHR ''\<newline>'') (x # xs))"
      using hg by simp
    with Cons c rest d x show ?thesis
      by (simp add: re_match_heading_def Let_def)
  qed
qed


lemma strip_where_hd: "strip_where p s \<noteq> [] \<Longrightarrow> \<not> p (hd (strip_where p s))"
proof -
  assume ne: "strip_where p s \<noteq> []"
  let ?y = "dropWhile p s"
  have y: "?y \<noteq> []" using ne by (cases "dropWhile p s") (simp_all add: strip_where_def)
  have "rev ?y = takeWhile p (rev ?y) @ dropWhile p (rev ?y)" by simp
  then have "?y = strip_where p s @ rev (takeWhile p (rev ?y))"
    unfolding strip_where_def by (metis rev_append rev_rev_ident)
  then have "hd ?y = hd (strip_where p s)" using ne by (metis hd_append2)
  then show ?thesis using hd_dropWhile [OF y] by simp
qed

lemma strip_where_decompose:
  "\<exists>l r. h = l @ strip_where p h @ r \<and> list_all p l \<and> list_all p r"
proof -
  let ?y = "dropWhile p h"
  have "rev ?y = takeWhile p (rev ?y) @ dropWhile p (rev ?y)" by simp
  then have y: "?y = strip_where p h @ rev (takeWhile p (rev ?y))"
    unfolding strip_where_def by (metis rev_append rev_rev_ident)
  have "h = takeWhile p h @ ?y" by simp
  then have "h = takeWhile p h @ strip_where p h @ rev (takeWhile p (rev ?y))"
    using y by simp
  moreover have "list_all p (takeWhile p h)"
    by (simp add: list_all_iff) (meson set_takeWhileD)
  moreover have "list_all p (rev (takeWhile p (rev ?y)))"
    by (simp add: list_all_iff) (meson set_takeWhileD)
  ultimately show ?thesis by blast
qed

lemma strip_where_core:
  assumes "a \<noteq> []" and "\<not> p (hd a)" and "\<not> p (last a)"
  shows "strip_where p (a @ t) = a @ rev (dropWhile p (rev t))"
proof -
  have d: "dropWhile p (a @ t) = a @ t"
    using assms(1,2) by (cases a) simp_all
  have ra: "rev a \<noteq> []" "\<not> p (hd (rev a))"
    using assms(1,3) by (simp_all add: hd_rev)
  then have dra: "dropWhile p (rev a) = rev a" by (cases "rev a") simp_all
  have "dropWhile p (rev t @ rev a) = dropWhile p (rev t) @ rev a"
  proof (cases "\<forall>x \<in> set (rev t). p x")
    case True
    then have "dropWhile p (rev t) = []" by simp
    moreover from True have "dropWhile p (rev t @ rev a) = dropWhile p (rev a)"
      by (intro dropWhile_append2) blast
    ultimately show ?thesis using dra by simp
  next
    case False
    then obtain x where "x \<in> set (rev t)" "\<not> p x" by blast
    then show ?thesis by (rule dropWhile_append1)
  qed
  then show ?thesis by (simp add: strip_where_def d)
qed

lemma rstrip_prefix: "prefix (rev (dropWhile p (rev t))) t"
proof -
  have "rev t = takeWhile p (rev t) @ dropWhile p (rev t)" by simp
  then have "t = rev (dropWhile p (rev t)) @ rev (takeWhile p (rev t))"
    by (metis rev_append rev_rev_ident)
  then show ?thesis by (metis prefixI)
qed

lemma takeWhile_prefix_mono: "prefix x y \<Longrightarrow> prefix (takeWhile q x) (takeWhile q y)"
proof -
  assume "prefix x y"
  then obtain z where y: "y = x @ z" by (auto simp: prefix_def)
  show ?thesis
  proof (cases "\<forall>c \<in> set x. q c")
    case True
    then have "takeWhile q x = x" by (simp add: takeWhile_eq_all_conv)
    moreover from True have "takeWhile q (x @ z) = x @ takeWhile q z"
      by (intro takeWhile_append2) blast
    ultimately show ?thesis unfolding y by (metis prefixI)
  next
    case False
    then obtain c where "c \<in> set x" "\<not> q c" by blast
    then have "takeWhile q (x @ z) = takeWhile q x" by (rule takeWhile_append1)
    then show ?thesis unfolding y by simp
  qed
qed

lemma py_split_nonempty: "py_split c s \<noteq> []"
  by (induction s) (auto split: list.splits)

lemma hd_py_split: "hd (py_split c s) = takeWhile (\<lambda>x. x \<noteq> c) s"
  by (induction s) (auto split: list.splits simp: py_split_nonempty)

lemma first_line_heading:
  assumes fl: "hd (py_split (CHR ''\<newline>'') content) = ''# '' @ h"
    and ne: "py_strip h \<noteq> []"
  shows "extract_title_from_content content filename = py_strip h"
proof -
  let ?N = "\<lambda>c. c \<noteq> CHR ''\<newline>''"
  define t where "t = dropWhile ?N content"
  define m where "m = strip_where py_isspace h"
  have tw: "takeWhile ?N content = ''# '' @ h" using fl by (simp add: hd_py_split)
  have content: "content = (''# '' @ h) @ t"
    using takeWhile_dropWhile_id [of ?N content] tw by (simp add: t_def)
  have hN: "\<forall>c \<in> set h. ?N c"
  proof
    fix c assume "c \<in> set h"
    then have "c \<in> set (takeWhile ?N content)" using tw by simp
    then show "?N c" using set_takeWhileD by fastforce
  qed
  have t: "t = [] \<or> hd t = CHR ''\<newline>''"
    using hd_dropWhile [of ?N content] by (auto simp: t_def)
  have m': "strip_where py_isspace h \<noteq> []" using ne by (simp add: py_strip_def)
  then have m: "m \<noteq> []" by (simp add: m_def)
  obtain l r where h: "h = l @ m @ r" and l: "list_all py_isspace l" and r: "list_all py_isspace r"
    using strip_where_decompose [of h py_isspace] unfolding m_def by blast
  have mh: "\<not> py_isspace (hd m)" and ml: "\<not> py_isspace (last m)"
    using strip_where_hd [OF m'] strip_where_last [OF m'] by (simp_all add: m_def)
  have mN: "\<forall>c \<in> set m. ?N c" and rN: "\<forall>c \<in> set r. ?N c"
    using hN h by (metis Un_iff set_append)+
  let ?a = "''# '' @ l @ m"
  let ?x = "rev (dropWhile py_isspace (rev (r @ t)))"
  have a: "?a \<noteq> []" "\<not> py_isspace (hd ?a)" "\<not> py_isspace (last ?a)"
    using m ml by (simp_all add: py_isspace_def)
  have "content = ?a @ (r @ t)" using content h by simp
  then have "py_strip content = strip_where py_isspace (?a @ (r @ t))"
    by (simp add: py_strip_def)
  then have s: "py_strip content = ?a @ ?x"
    using strip_where_core [OF a] by simp
  have sp: "py_isspace (CHR '' '')" by (simp add: py_isspace_def)
  have cond: "prefix ''#'' (py_strip content) \<and> length (py_strip content) > 1
                \<and> py_isspace (py_strip content ! 1)"
    unfolding s using sp by simp
  have "tl (py_strip content) = (CHR '' '' # l) @ (m @ ?x)" unfolding s by simp
  moreover have "\<forall>c \<in> set (CHR '' '' # l). py_isspace c"
    using l sp by (simp add: list_all_iff)
  ultimately have "dropWhile py_isspace (tl (py_strip content)) = dropWhile py_isspace (m @ ?x)"
    by (simp only: dropWhile_append2)
  also have "\<dots> = m @ ?x" using m mh by (cases m) simp_all
  finally have dw: "dropWhile py_isspace (tl (py_strip content)) = m @ ?x" .
  have tk: "takeWhile ?N (m @ ?x) = m @ takeWhile ?N ?x"
    using mN by (simp add: takeWhile_append2)
  have "takeWhile ?N t = []" using t by (cases t) auto
  moreover have "takeWhile ?N (r @ t) = r @ takeWhile ?N t"
    using rN by (intro takeWhile_append2) blast
  ultimately have "takeWhile ?N (r @ t) = r" by simp
  then have "prefix (takeWhile ?N ?x) r"
    using takeWhile_prefix_mono [OF rstrip_prefix [of py_isspace "r @ t"], of ?N] by simp
  then have "set (takeWhile ?N ?x) \<subseteq> set r" by (rule set_mono_prefix)
  then have g: "\<forall>c \<in> set (rev (takeWhile ?N ?x)). py_isspace c"
    using r by (auto simp: list_all_iff)
  have "py_strip (m @ takeWhile ?N ?x) = m @ rev (dropWhile py_isspace (rev (takeWhile ?N ?x)))"
    unfolding py_strip_def using strip_where_core [OF m mh ml] by simp
  also have "\<dots> = m"
  proof -
    have "dropWhile py_isspace (rev (takeWhile ?N ?x)) = []"
      using g by (simp only: dropWhile_eq_Nil_conv)
    then show ?thesis by (simp only: rev.simps(1) append_Nil2)
  qed
  finally have fin: "py_strip (m @ takeWhile ?N ?x) = m" .
  have "re_match_heading (py_strip content)
          = Some (takeWhile ?N (dropWhile py_isspace (tl (py_strip content))))"
    by (simp only: re_match_heading_stripped [OF refl, of content] cond if_True simp_thms)
  then have rm: "re_match_heading (py_strip content) = Some (m @ takeWhile ?N ?x)"
    by (simp only: dw tk)
  have "extract_title_from_content content filename = py_strip (m @ takeWhile ?N ?x)"
    by (simp only: extract_title_from_content_def rm option.case)
  also have "\<dots> = m" by (rule fin)
  also have "m = py_strip h" by (simp only: m_def py_strip_def)
  finally show ?thesis .
qed

lemma replace_char: "py_replace [a] [b] s = map (\<lambda>c. if c = a then b else c) s"
  by (induction s) auto

lemma replace_md_suffix: "CHR ''.'' \<notin> set b \<Longrightarrow> py_replace ''.md'' [] (b @ ''.md'') = b"
  by (induction b) simp_all

lemma filename_title_extension:
  assumes "CHR ''.'' \<notin> set base"
  shows "filename_title (base @ ''.md'')
           = py_title (map (\<lambda>c. if c = CHR ''-'' \<or> c = CHR ''_'' then CHR '' '' else c) base)"
proof -
  let ?f = "\<lambda>c. if c = CHR ''-'' then CHR '' '' else c"
  let ?g = "\<lambda>c. if c = CHR ''_'' then CHR '' '' else c"
  have 1: "py_replace ''_'' '' '' (py_replace ''-'' '' '' (base @ ''.md''))
             = map ?g (map ?f base) @ ''.md''"
    by (simp add: replace_char)
  have 2: "CHR ''.'' \<notin> set (map (\<lambda>c. if c = CHR ''-'' \<or> c = CHR ''_'' then CHR '' '' else c) base)"
    using assms by auto
  have 3: "map ?g (map ?f base)
             = map (\<lambda>c. if c = CHR ''-'' \<or> c = CHR ''_'' then CHR '' '' else c) base"
    by auto
  show ?thesis
    unfolding filename_title_def 1 3 replace_md_suffix [OF 2] by (rule refl)
qed


text \<open>
  Where \<open>extract_title_from_content\<close> does what is asked of it: a content whose first line
  is \<open>#\<close>, a blank and a text yields that text stripped, \<open># Foo Bar\<close> yields \<open>Foo Bar\<close>, and
  with no heading at the start of the content a filename whose only dot is the one of its
  extension yields the title-cased base name. The first equation is what the function
  computes on every input.
\<close>

lemma extract_title_from_content_first_line:
  assumes "isascii content" and "isascii filename"
  shows "extract_title_from_content content filename =
           (if heading_at_start (py_strip content)
            then py_strip (takeWhile (\<lambda>c. c \<noteq> CHR ''\<newline>'')
                             (dropWhile py_isspace (tl (py_strip content))))
            else py_title (py_replace ''.md'' []
                             (py_replace ''_'' '' '' (py_replace ''-'' '' '' filename))))
       \<and> (hd (py_split (CHR ''\<newline>'') content) = ''# '' @ h \<and> py_strip h \<noteq> []
            \<longrightarrow> extract_title_from_content content filename = py_strip h)
       \<and> (hd (py_split (CHR ''\<newline>'') content) = ''# Foo Bar''
            \<longrightarrow> extract_title_from_content content filename = ''Foo Bar'')
       \<and> (\<not> heading_at_start (py_strip content) \<and> filename = base @ ''.md''
              \<and> CHR ''.'' \<notin> set base
            \<longrightarrow> extract_title_from_content content filename =
                  py_title (map (\<lambda>c. if c = CHR ''-'' \<or> c = CHR ''_'' then CHR '' '' else c) base))"
proof -
  have A: "extract_title_from_content content filename =
           (if heading_at_start (py_strip content)
            then py_strip (takeWhile (\<lambda>c. c \<noteq> CHR ''\<newline>'')
                             (dropWhile py_isspace (tl (py_strip content))))
            else filename_title filename)"
    unfolding extract_title_from_content_def heading_at_start_def
      re_match_heading_stripped [OF refl, of content]
    by simp
  have foo: "py_strip ''Foo Bar'' = ''Foo Bar''" by code_simp
  have B: "extract_title_from_content content filename = ''Foo Bar''"
    if "hd (py_split (CHR ''\<newline>'') content) = ''# Foo Bar''"
  proof -
    from that have "hd (py_split (CHR ''\<newline>'') content) = ''# '' @ ''Foo Bar''" by simp
    from first_line_heading [OF this] foo show ?thesis by simp
  qed
  have C: "extract_title_from_content content filename =
             py_title (map (\<lambda>c. if c = CHR ''-'' \<or> c = CHR ''_'' then CHR '' '' else c) base)"
    if "\<not> heading_at_start (py_strip content)" "filename = base @ ''.md''" "CHR ''.'' \<notin> set base"
    using that A filename_title_extension [of base] by simp
  show ?thesis
    using A B C first_line_heading [of content h filename]
    by (simp add: filename_title_def)
qed

lemma extract_title_from_content_examples:
  "extract_title_from_content ''# Foo Bar\<newline>Body text.'' ''foo-bar.md'' = ''Foo Bar''
   \<and> extract_title_from_content ''Body text only.'' ''my-note_one.md'' = ''My Note One''"
proof -
  have a1: "isascii ''# Foo Bar\<newline>Body text.''" "isascii ''foo-bar.md''"
    "isascii ''Body text only.''" "isascii ''my-note_one.md''"
    by code_simp+
  have h1: "hd (py_split (CHR ''\<newline>'') ''# Foo Bar\<newline>Body text.'') = ''# Foo Bar''"
    by code_simp
  have h2: "\<not> heading_at_start (py_strip ''Body text only.'')" by code_simp
  have h3: "''my-note_one.md'' = ''my-note_one'' @ ''.md''" "CHR ''.'' \<notin> set ''my-note_one''"
    by simp_all
  have t: "py_title (map (\<lambda>c. if c = CHR ''-'' \<or> c = CHR ''_'' then CHR '' '' else c) ''my-note_one'')
             = ''My Note One''" by code_simp
  note th1 = extract_title_from_content_first_line [OF a1(1,2), of "''Foo Bar''" "''foo-bar''"]
  note th2 = extract_title_from_content_first_line [OF a1(3,4), of "''Foo Bar''" "''my-note_one''"]
  have w1: "extract_title_from_content ''# Foo Bar\<newline>Body text.'' ''foo-bar.md'' = ''Foo Bar''"
    using th1 [THEN conjunct2, THEN conjunct2, THEN conjunct1] h1 by blast
  have "extract_title_from_content ''Body text only.'' ''my-note_one.md'' =
          py_title (map (\<lambda>c. if c = CHR ''-'' \<or> c = CHR ''_'' then CHR '' '' else c) ''my-note_one'')"
    using th2 [THEN conjunct2, THEN conjunct2, THEN conjunct2] h2 h3 by blast
  then have w2: "extract_title_from_content ''Body text only.'' ''my-note_one.md'' = ''My Note One''"
    unfolding t .
  from w1 w2 show ?thesis by (rule conjI)
qed

text \<open>
  C6. The claim is what the sibling derivation of \<open>scripts/cluster_notes.py\<close> does, and
  \<open>extract_title_from_content\<close> misses it twice. The first \<open># Heading\<close> line of the content
  \<open>Intro.\<close>, \<open># Foo Bar\<close> supplies \<open>Foo Bar\<close>, which the sibling returns; \<open>re.match\<close> looks at
  the start of the content only, and the function returns the filename's \<open>My Note\<close>. For
  the file \<open>notes.mdx.md\<close> with no heading, stripping the extension gives \<open>Notes.Mdx\<close>, which
  the sibling returns; \<open>replace(".md", "")\<close> removes the \<open>.md\<close> of \<open>.mdx\<close> as well, and the
  function returns \<open>Notesx\<close>.
\<close>

theorem extract_title_from_content_divergence:
  "first_heading_as_specified ''Intro.\<newline># Foo Bar'' = Some ''Foo Bar''
   \<and> cluster_notes_title ''Intro.\<newline># Foo Bar'' ''my-note.md'' = ''Foo Bar''
   \<and> extract_title_from_content ''Intro.\<newline># Foo Bar'' ''my-note.md'' = ''My Note''
   \<and> cluster_notes_title ''Body text only.'' ''notes.mdx.md'' = ''Notes.Mdx''
   \<and> extract_title_from_content ''Body text only.'' ''notes.mdx.md'' = ''Notesx''"
  by code_simp

section \<open>Properties of draft\_note\<close>

lemma hyphen_not_az09: "\<not> is_az09 (CHR ''-'')"
  by (simp add: is_az09_def py_islower_def)

lemma sub_non_alnum_run:
  "\<forall>c \<in> set w. is_az09 c \<Longrightarrow> sub_non_alnum (w @ rest) = w @ sub_non_alnum rest"
  by (induction w) simp_all

lemma sub_non_alnum_start:
  "s = [] \<or> is_az09 (hd s) \<Longrightarrow> dropWhile (\<lambda>c. c = CHR ''-'') (sub_non_alnum s) = sub_non_alnum s"
  using hyphen_not_az09 by (cases s) auto

lemma dropWhile_start: "dropWhile p s = [] \<or> \<not> p (hd (dropWhile p s))"
  using hd_dropWhile by blast

lemma lstrip_sub_non_alnum:
  "dropWhile (\<lambda>c. c = CHR ''-'') (sub_non_alnum s)
     = sub_non_alnum (dropWhile (\<lambda>c. \<not> is_az09 c) s)"
proof (cases s)
  case Nil
  then show ?thesis by simp
next
  case (Cons c cs)
  show ?thesis
  proof (cases "is_az09 c")
    case True
    with Cons show ?thesis using sub_non_alnum_start [of s] by simp
  next
    case False
    let ?r = "dropWhile (\<lambda>c. \<not> is_az09 c) cs"
    have "?r = [] \<or> is_az09 (hd ?r)" using dropWhile_start [of "\<lambda>c. \<not> is_az09 c" cs] by simp
    then have "dropWhile (\<lambda>c. c = CHR ''-'') (sub_non_alnum ?r) = sub_non_alnum ?r"
      by (rule sub_non_alnum_start)
    with False Cons show ?thesis by simp
  qed
qed

lemma rstrip_append:
  assumes "rev (dropWhile p (rev y)) \<noteq> []"
  shows "rev (dropWhile p (rev (a @ y))) = a @ rev (dropWhile p (rev y))"
proof -
  from assms have "dropWhile p (rev y) \<noteq> []" by simp
  then obtain x where "x \<in> set (rev y)" "\<not> p x"
    by (metis dropWhile_eq_Nil_conv)
  then have "dropWhile p (rev y @ rev a) = dropWhile p (rev y) @ rev a"
    by (rule dropWhile_append1)
  then show ?thesis by simp
qed

lemma rstrip_all:
  assumes "rev (dropWhile p (rev y)) = []" and "w \<noteq> []" and "\<not> p (last w)"
  shows "rev (dropWhile p (rev (w @ y))) = w"
proof -
  from assms(1) have "\<forall>x \<in> set (rev y). p x" by (simp add: dropWhile_eq_Nil_conv)
  then have "dropWhile p (rev y @ rev w) = dropWhile p (rev w)"
    by (intro dropWhile_append2) blast
  moreover have "dropWhile p (rev w) = rev w"
    using assms(2,3) by (cases "rev w") (simp_all add: last_rev [symmetric] hd_rev)
  ultimately show ?thesis by simp
qed

lemma alnum_runs_Nil:
  assumes "dropWhile (\<lambda>c. \<not> is_az09 c) s = []"
  shows "alnum_runs s = []"
  by (subst alnum_runs.simps) (simp only: assms list.case)

lemma alnum_runs_Cons:
  assumes "dropWhile (\<lambda>c. \<not> is_az09 c) s = c # cs"
  shows "alnum_runs s = takeWhile is_az09 (c # cs) # alnum_runs (dropWhile is_az09 (c # cs))"
  by (subst alnum_runs.simps) (simp only: assms list.case)

lemma alnum_runs_nonempty: "[] \<notin> set (alnum_runs s)"
proof (induction s rule: alnum_runs.induct)
  case (1 s)
  show ?case
  proof (cases "dropWhile (\<lambda>c. \<not> is_az09 c) s")
    case Nil
    then show ?thesis by (simp only: alnum_runs_Nil) simp
  next
    case (Cons c cs)
    then have "is_az09 c" using hd_dropWhile [of "\<lambda>c. \<not> is_az09 c" s] by simp
    with 1 [OF Cons] show ?thesis by (simp add: alnum_runs_Cons [OF Cons])
  qed
qed

lemma join_hyphen_Nil: "[] \<notin> set ws \<Longrightarrow> join_hyphen ws = [] \<Longrightarrow> ws = []"
  by (induction ws rule: join_hyphen.induct) auto

lemma join_hyphen_Cons:
  "join_hyphen (w # ws) = (if ws = [] then w else w @ ''-'' @ join_hyphen ws)"
  by (cases ws) simp_all

lemma rstrip_sub_non_alnum:
  "rev (dropWhile (\<lambda>c. c = CHR ''-'') (rev (sub_non_alnum (dropWhile (\<lambda>c. \<not> is_az09 c) s))))
     = join_hyphen (alnum_runs s)"
proof (induction s rule: alnum_runs.induct)
  case (1 s)
  let ?H = "\<lambda>c. c = CHR ''-''"
  show ?case
  proof (cases "dropWhile (\<lambda>c. \<not> is_az09 c) s")
    case Nil
    show ?thesis unfolding Nil alnum_runs_Nil [OF Nil] by simp
  next
    case (Cons c cs)
    define w where "w = takeWhile is_az09 (c # cs)"
    define rest where "rest = dropWhile is_az09 (c # cs)"
    have c: "is_az09 c" using hd_dropWhile [of "\<lambda>c. \<not> is_az09 c" s] Cons by simp
    have runs: "alnum_runs s = w # alnum_runs rest"
      unfolding w_def rest_def by (rule alnum_runs_Cons [OF Cons])
    have wr: "c # cs = w @ rest" by (simp add: w_def rest_def)
    have wA: "\<forall>x \<in> set w. is_az09 x" unfolding w_def by (meson set_takeWhileD)
    have wne: "w \<noteq> []" using c by (simp add: w_def)
    then have "is_az09 (last w)" using wA by simp
    then have wl: "\<not> ?H (last w)" using hyphen_not_az09 by auto
    have "sub_non_alnum (c # cs) = w @ sub_non_alnum rest"
      unfolding wr using wA by (rule sub_non_alnum_run)
    then have lhs: "sub_non_alnum (dropWhile (\<lambda>c. \<not> is_az09 c) s) = w @ sub_non_alnum rest"
      unfolding Cons .
    have IH: "rev (dropWhile ?H (rev (sub_non_alnum (dropWhile (\<lambda>c. \<not> is_az09 c) rest))))
                = join_hyphen (alnum_runs rest)"
      using 1 [OF Cons] by (simp add: rest_def)
    show ?thesis
    proof (cases rest)
      case Nil
      then have e: "alnum_runs rest = []" by (simp add: alnum_runs_Nil)
      have "rev (dropWhile ?H (rev w)) = w"
        using rstrip_all [of ?H "[]" w] wne wl by simp
      then show ?thesis unfolding lhs runs Nil by (simp add: alnum_runs_Nil)
    next
      case (Cons d ds)
      have "rest = [] \<or> \<not> is_az09 (hd rest)"
        unfolding rest_def using dropWhile_start [of is_az09 "c # cs"] by simp
      with Cons have d: "\<not> is_az09 d" by simp
      define y where "y = sub_non_alnum (dropWhile (\<lambda>c. \<not> is_az09 c) rest)"
      have sr: "sub_non_alnum rest = CHR ''-'' # y"
        using Cons d by (simp add: y_def)
      have IH': "rev (dropWhile ?H (rev y)) = join_hyphen (alnum_runs rest)"
        using IH by (simp add: y_def)
      show ?thesis
      proof (cases "alnum_runs rest = []")
        case True
        then have "rev (dropWhile ?H (rev y)) = []" using IH' by simp
        then have "rev (dropWhile ?H (rev (CHR ''-'' # y))) = []"
          by (simp add: dropWhile_append2)
        then have "rev (dropWhile ?H (rev (w @ CHR ''-'' # y))) = w"
          using wne wl by (rule rstrip_all)
        then show ?thesis unfolding lhs runs sr True by simp
      next
        case False
        then have "join_hyphen (alnum_runs rest) \<noteq> []"
          using join_hyphen_Nil [OF alnum_runs_nonempty] by blast
        then have ne: "rev (dropWhile ?H (rev y)) \<noteq> []" using IH' by simp
        have "rev (dropWhile ?H (rev ((w @ ''-'') @ y))) = (w @ ''-'') @ rev (dropWhile ?H (rev y))"
          using ne by (rule rstrip_append)
        then have "rev (dropWhile ?H (rev (w @ CHR ''-'' # y))) = w @ ''-'' @ join_hyphen (alnum_runs rest)"
          using IH' by simp
        then show ?thesis unfolding lhs runs sr using False by (simp add: join_hyphen_Cons)
      qed
    qed
  qed
qed

lemma slugify_as_specified: "slugify title = slug_as_specified title"
proof -
  let ?H = "\<lambda>c. c = CHR ''-''"
  have "slugify title = rev (dropWhile ?H (rev (dropWhile ?H (sub_non_alnum (py_lower title)))))"
    by (simp add: slugify_def strip_where_def)
  also have "\<dots> = join_hyphen (alnum_runs (py_lower title))"
    unfolding lstrip_sub_non_alnum by (rule rstrip_sub_non_alnum)
  finally show ?thesis by (simp add: slug_as_specified_def)
qed


lemma stripped_first_line:
  assumes fl: "hd (py_split (CHR ''\<newline>'') content) = first_line"
    and ne: "first_line \<noteq> []"
    and h: "\<not> py_isspace (hd first_line)" and l: "\<not> py_isspace (last first_line)"
  shows "hd (py_split (CHR ''\<newline>'') (py_strip content)) = first_line"
proof -
  let ?N = "\<lambda>c. c \<noteq> CHR ''\<newline>''"
  define t where "t = dropWhile ?N content"
  define x where "x = rev (dropWhile py_isspace (rev t))"
  have tw: "takeWhile ?N content = first_line" using fl by (simp add: hd_py_split)
  have content: "content = first_line @ t"
    using takeWhile_dropWhile_id [of ?N content] tw by (simp add: t_def)
  have fN: "\<forall>c \<in> set first_line. ?N c"
  proof
    fix c assume "c \<in> set first_line"
    then have "c \<in> set (takeWhile ?N content)" using tw by simp
    then show "?N c" using set_takeWhileD by fastforce
  qed
  have t: "t = [] \<or> hd t = CHR ''\<newline>''"
    using hd_dropWhile [of ?N content] by (auto simp: t_def)
  have s: "py_strip content = first_line @ x"
    unfolding py_strip_def x_def content by (rule strip_where_core [OF ne h l])
  have "takeWhile ?N t = []" using t by (cases t) auto
  moreover have "prefix (takeWhile ?N x) (takeWhile ?N t)"
    unfolding x_def by (rule takeWhile_prefix_mono [OF rstrip_prefix])
  ultimately have "takeWhile ?N x = []" by simp
  moreover have "takeWhile ?N (first_line @ x) = first_line @ takeWhile ?N x"
    using fN by (intro takeWhile_append2) blast
  ultimately have "takeWhile ?N (py_strip content) = first_line" unfolding s by simp
  then show ?thesis by (simp only: hd_py_split)
qed

lemma prefix_first_line:
  "prefix ''# '' (takeWhile (\<lambda>c. c \<noteq> CHR ''\<newline>'') s) = prefix ''# '' s"
proof (cases s)
  case Nil
  then show ?thesis by simp
next
  case (Cons c cs)
  then show ?thesis by (cases cs) auto
qed

lemma title_from_content_rule:
  "title_from_content content =
     (if prefix ''# '' (py_strip content)
      then py_strip (drop 2 (takeWhile (\<lambda>c. c \<noteq> CHR ''\<newline>'') (py_strip content)))
      else ''Untitled Note'')"
  unfolding title_from_content_def Let_def hd_py_split prefix_first_line ..

lemma title_from_first_line:
  assumes "hd (py_split (CHR ''\<newline>'') content) = ''# '' @ h"
    and "h \<noteq> []" and "\<not> py_isspace (last h)"
  shows "title_from_content content = py_strip h"
proof -
  have "hd (py_split (CHR ''\<newline>'') (py_strip content)) = ''# '' @ h"
    using assms by (intro stripped_first_line) (simp_all add: py_isspace_def)
  then show ?thesis by (simp add: title_from_content_def)
qed

text \<open>
  C7, as amended. With the title omitted, \<open>draft_note\<close> takes it from the first line of
  the stripped content when that line starts with \<open>#\<close> and a blank (the rest of the line,
  stripped), and is \<open>Untitled Note\<close> otherwise, also when a heading stands on a later
  line. With the path omitted, the path is the slug of the title and \<open>.md\<close>, the slug
  being the runs of \<open>[a-z0-9]\<close> of the lowercased title joined by single hyphens. \<open>is_new\<close>
  holds exactly when the path is not a key of the note store. A content whose first line
  is \<open># Feature Flags\<close> yields the title \<open>Feature Flags\<close> and the path \<open>feature-flags.md\<close>.
\<close>

theorem draft_note_derivation:
  assumes "isascii content" and "isascii (case title of None \<Rightarrow> [] | Some t \<Rightarrow> t)"
  shows "(falsy title \<longrightarrow>
            d_title (draft_note content title path tool_context) =
              (if prefix ''# '' (py_strip content)
               then py_strip (drop 2 (takeWhile (\<lambda>c. c \<noteq> CHR ''\<newline>'') (py_strip content)))
               else ''Untitled Note''))
       \<and> (falsy title \<and> hd (py_split (CHR ''\<newline>'') content) = ''# '' @ h
             \<and> h \<noteq> [] \<and> \<not> py_isspace (last h) \<longrightarrow>
            d_title (draft_note content title path tool_context) = py_strip h)
       \<and> (falsy path \<longrightarrow>
            d_path (draft_note content title path tool_context) =
              slug_as_specified (d_title (draft_note content title path tool_context)) @ ''.md'')
       \<and> d_is_new (draft_note content title path tool_context) =
            (d_path (draft_note content title path tool_context)
               \<notin> fst ` set (case tool_context of None \<Rightarrow> [] | Some st \<Rightarrow> state_get_notes st))
       \<and> (falsy title \<and> falsy path
             \<and> hd (py_split (CHR ''\<newline>'') content) = ''# Feature Flags'' \<longrightarrow>
            d_title (draft_note content title path tool_context) = ''Feature Flags''
            \<and> d_path (draft_note content title path tool_context) = ''feature-flags.md'')"
proof -
  have t: "d_title (draft_note content title path tool_context) = title_from_content content"
    if "falsy title"
    using that by (simp add: draft_note_def Let_def)
  have p: "d_path (draft_note content title path tool_context) =
             slug_as_specified (d_title (draft_note content title path tool_context)) @ ''.md''"
    if "falsy path"
    using that by (simp add: draft_note_def Let_def slugify_as_specified)
  have n: "d_is_new (draft_note content title path tool_context) =
            (d_path (draft_note content title path tool_context)
               \<notin> fst ` set (case tool_context of None \<Rightarrow> [] | Some st \<Rightarrow> state_get_notes st))"
    by (simp add: draft_note_def Let_def map_of_eq_None_iff)
  have ff: "py_strip ''Feature Flags'' = ''Feature Flags''" by code_simp
  have sl: "slug_as_specified ''Feature Flags'' = ''feature-flags''"
    unfolding slugify_as_specified [symmetric] by code_simp
  have e: "d_title (draft_note content title path tool_context) = ''Feature Flags''
           \<and> d_path (draft_note content title path tool_context) = ''feature-flags.md''"
    if "falsy title" "falsy path" "hd (py_split (CHR ''\<newline>'') content) = ''# Feature Flags''"
  proof -
    from that(3) have "hd (py_split (CHR ''\<newline>'') content) = ''# '' @ ''Feature Flags''" by simp
    then have "title_from_content content = py_strip ''Feature Flags''"
      by (rule title_from_first_line) (simp_all add: py_isspace_def)
    then have "d_title (draft_note content title path tool_context) = ''Feature Flags''"
      using t [OF that(1)] ff by simp
    then show ?thesis using p [OF that(2)] sl by simp
  qed
  have c1: "falsy title \<longrightarrow>
            d_title (draft_note content title path tool_context) =
              (if prefix ''# '' (py_strip content)
               then py_strip (drop 2 (takeWhile (\<lambda>c. c \<noteq> CHR ''\<newline>'') (py_strip content)))
               else ''Untitled Note'')"
  proof
    assume f: "falsy title"
    show "d_title (draft_note content title path tool_context) =
              (if prefix ''# '' (py_strip content)
               then py_strip (drop 2 (takeWhile (\<lambda>c. c \<noteq> CHR ''\<newline>'') (py_strip content)))
               else ''Untitled Note'')"
      unfolding t [OF f] by (rule title_from_content_rule)
  qed
  have c2: "falsy title \<and> hd (py_split (CHR ''\<newline>'') content) = ''# '' @ h
             \<and> h \<noteq> [] \<and> \<not> py_isspace (last h) \<longrightarrow>
            d_title (draft_note content title path tool_context) = py_strip h"
  proof (intro impI, elim conjE)
    assume f: "falsy title" and "hd (py_split (CHR ''\<newline>'') content) = ''# '' @ h"
      and "h \<noteq> []" and "\<not> py_isspace (last h)"
    then show "d_title (draft_note content title path tool_context) = py_strip h"
      unfolding t [OF f] by (intro title_from_first_line)
  qed
  have c3: "falsy path \<longrightarrow>
            d_path (draft_note content title path tool_context) =
              slug_as_specified (d_title (draft_note content title path tool_context)) @ ''.md''"
    using p by blast
  have c5: "falsy title \<and> falsy path
             \<and> hd (py_split (CHR ''\<newline>'') content) = ''# Feature Flags'' \<longrightarrow>
            d_title (draft_note content title path tool_context) = ''Feature Flags''
            \<and> d_path (draft_note content title path tool_context) = ''feature-flags.md''"
    using e by blast
  from c1 c2 c3 n c5 show ?thesis by (intro conjI)
qed

theorem draft_note_derivation_witness:
  "draft_note ''# Feature Flags\<newline>How we roll out.'' None None (Some (Some example_store))
     = \<lparr>d_path = ''feature-flags.md'', d_title = ''Feature Flags'',
        d_content = ''# Feature Flags\<newline>How we roll out.'', d_is_new = True\<rparr>"
proof -
  let ?c = "''# Feature Flags\<newline>How we roll out.''"
  let ?d = "draft_note ?c None None (Some (Some example_store))"
  have a: "isascii ?c" by code_simp
  have b: "isascii (case None of None \<Rightarrow> [] | Some t \<Rightarrow> t)" by (simp add: isascii_def)
  have f: "falsy None" by (simp add: falsy_def)
  have h: "hd (py_split (CHR ''\<newline>'') ?c) = ''# Feature Flags''" by code_simp
  note th = draft_note_derivation [OF a b, of None "Some (Some example_store)" "''Feature Flags''"]
  have tp: "d_title ?d = ''Feature Flags'' \<and> d_path ?d = ''feature-flags.md''"
    using th [THEN conjunct2, THEN conjunct2, THEN conjunct2, THEN conjunct2] f h by blast
  have "d_is_new ?d = (d_path ?d \<notin> fst ` set (state_get_notes (Some example_store)))"
    using th [THEN conjunct2, THEN conjunct2, THEN conjunct2, THEN conjunct1] by simp
  then have n: "d_is_new ?d" using tp by (simp add: state_get_notes_def example_store_def)
  have c: "d_content ?d = ?c" by (simp add: draft_note_def Let_def)
  show ?thesis using tp n c by (cases ?d) simp
qed

text \<open>
  C7 as stated fails: the first top-level heading of this content is \<open>Feature Flags\<close>, but
  it is not on the first line, and the draft is the untitled note.
\<close>

theorem draft_heading_on_later_line_counterexample:
  "first_heading_as_specified ''Intro.\<newline># Feature Flags'' = Some ''Feature Flags''
   \<and> d_title (draft_note ''Intro.\<newline># Feature Flags'' None None None) = ''Untitled Note''
   \<and> d_path (draft_note ''Intro.\<newline># Feature Flags'' None None None) = ''untitled-note.md''"
  by code_simp

section \<open>Properties of list\_notes\<close>

lemma dict_get_dd_append:
  "dict_get (dd_append by_topic k v) t [] = dict_get by_topic t [] @ (if t = k then [v] else [])"
  by (induction by_topic k v rule: dd_append.induct) (auto simp: dict_get_def)

lemma keys_dd_append:
  "set (map fst (dd_append by_topic k v)) = insert k (set (map fst by_topic))"
  by (induction by_topic k v rule: dd_append.induct) auto

lemma distinct_dd_append:
  "distinct (map fst by_topic) \<Longrightarrow> distinct (map fst (dd_append by_topic k v))"
proof (induction by_topic k v rule: dd_append.induct)
  case (1 k v)
  then show ?case by simp
next
  case (2 k' vs rest k v)
  then show ?case
    using keys_dd_append [of rest k v] by (auto simp del: set_map)
qed

lemma dict_get_group_notes:
  "dict_get (group_notes ns by_topic) t [] = dict_get by_topic t [] @ notes_under t ns"
  by (induction ns by_topic rule: group_notes.induct)
    (simp_all add: notes_under_def dict_get_dd_append)

lemma keys_group_notes:
  "set (map fst (group_notes ns by_topic))
     = set (map fst by_topic) \<union> set (map (\<lambda>item. topic_of_path (fst item)) ns)"
  by (induction ns by_topic rule: group_notes.induct) (auto simp: keys_dd_append simp del: set_map)

lemma distinct_group_notes:
  "distinct (map fst by_topic) \<Longrightarrow> distinct (map fst (group_notes ns by_topic))"
  by (induction ns by_topic rule: group_notes.induct) (simp_all add: distinct_dd_append)

lemma sorted_keys_group_notes: "sort (map fst (group_notes ns [])) = listed_topics ns"
proof -
  let ?k = "map fst (group_notes ns [])"
  let ?t = "remdups (map (\<lambda>item. topic_of_path (fst item)) ns)"
  have d: "distinct ?k" by (rule distinct_group_notes) simp
  have s: "set ?k = set ?t" using keys_group_notes [of ns "[]"] by simp
  have "sort ?k = sort ?t"
    by (rule sorted_distinct_set_unique)
      (simp_all only: sorted_sort distinct_sort d distinct_remdups set_sort s)
  then show ?thesis by (simp add: listed_topics_def)
qed

lemma length_group_notes: "length (group_notes ns []) = length (listed_topics ns)"
proof -
  have "length (group_notes ns []) = length (sort (map fst (group_notes ns [])))" by simp
  then show ?thesis by (simp only: sorted_keys_group_notes)
qed

lemma append_note_lines_concat:
  "append_note_lines ns result = result @ concat (map note_line ns)"
  by (induction ns arbitrary: result) simp_all

lemma append_topics_concat:
  "append_topics by_topic ts result =
     result @ concat (map (\<lambda>topic.
        topic_heading topic (length (dict_get by_topic topic []))
        @ concat (map note_line (sort_key l_title (dict_get by_topic topic [])))
        @ ''\<newline>'') ts)"
  by (induction ts arbitrary: result) (simp_all add: Let_def append_note_lines_concat)

lemma length_py_split: "Suc 0 < length (py_split c s) \<longleftrightarrow> c \<in> set s"
  by (induction s) (auto split: list.splits simp: py_split_nonempty)

lemma topic_of_path_directory:
  "topic_of_path path =
     (if CHR ''/'' \<in> set path then takeWhile (\<lambda>c. c \<noteq> CHR ''/'') path else ''General'')"
  by (simp add: topic_of_path_def Let_def length_py_split hd_py_split)

lemma remdups_replicate_Suc: "remdups (replicate (Suc n) x) = [x]"
  by (induction n) auto

lemma listed_topics_general:
  assumes "ns \<noteq> []" and "\<forall>item \<in> set ns. CHR ''/'' \<notin> set (fst item)"
  shows "listed_topics ns = [''General'']"
proof -
  have "map (\<lambda>item. topic_of_path (fst item)) ns = replicate (length ns) ''General''"
    using assms(2) by (induction ns) (simp_all add: topic_of_path_directory)
  moreover have "remdups (replicate (length ns) ''General'') = [''General'']"
    using assms(1) remdups_replicate_Suc [of "length ns - 1" "''General''"] by (cases ns) simp_all
  ultimately show ?thesis by (simp add: listed_topics_def)
qed

lemma dict_set_subset: "set (dict_set d k v) \<subseteq> insert (k, v) (set d)"
  by (induction d k v rule: dict_set.induct) auto

lemma collect_notes_topic:
  "(p, d) \<in> set (collect_notes m fs acc) \<Longrightarrow>
     (p, d) \<in> set acc \<or> assigned_topic d = (case m p of None \<Rightarrow> ''General'' | Some t \<Rightarrow> t)"
proof (induction m fs acc rule: collect_notes.induct)
  case (1 m acc)
  then show ?case by simp
next
  case (2 m f rest acc)
  show ?case
  proof (cases "file_type f = ''file'' \<and> suffix ''.md'' (file_name f)")
    case False
    with 2 show ?thesis by auto
  next
    case True
    show ?thesis
    proof (cases "decoded_content f")
      case (Inl e)
      with True 2 show ?thesis by auto
    next
      case (Inr file_content)
      let ?n = "[(''content'', file_content),
                 (''title'', extract_title_from_content file_content (file_name f)),
                 (''path'', file_name f),
                 (''topic'', case m (file_name f) of None \<Rightarrow> ''General'' | Some t \<Rightarrow> t)]"
      from 2 True Inr
      have "(p, d) \<in> set (dict_set acc (file_name f) ?n)
              \<or> assigned_topic d = (case m p of None \<Rightarrow> ''General'' | Some t \<Rightarrow> t)"
        by (simp add: Let_def)
      moreover have "assigned_topic ?n = (case m (file_name f) of None \<Rightarrow> ''General'' | Some t \<Rightarrow> t)"
        by (simp add: assigned_topic_def dict_get_def)
      ultimately show ?thesis
        using dict_set_subset [of acc "file_name f" ?n] by auto
    qed
  qed
qed

lemma assign_notes_other: "p \<notin> set fs \<Longrightarrow> assign_notes name fs m p = m p"
  by (induction name fs m rule: assign_notes.induct) simp_all

lemma assign_clusters_other: "p \<notin> manifest_files cs \<Longrightarrow> assign_clusters cs m p = m p"
  by (induction cs m rule: assign_clusters.induct)
    (auto simp: manifest_files_def Let_def assign_notes_other split: option.splits)


lemma dict_get_Nil: "dict_get [] k dflt = dflt"
  by (simp add: dict_get_def)

text \<open>
  C8, as amended. For every non-empty note store, the listing of \<open>list_notes\<close> is the
  header with the numbers of notes and of topics, then for every topic in sorted order
  its heading and the notes under it sorted by title, then the closing sentence, where
  the topic of a note is the first directory of its path, and \<open>General\<close> for a path with no
  directory. Every note stands under the topic of its path. The \<open>topic\<close> field is not read:
  a store whose paths have no directory, as every fetched store, is listed under
  \<open>General\<close> alone. The field itself is what the claim says: the fetch gives every note the
  cluster that the manifest maps its filename to, \<open>General\<close> when there is none, and a file
  that no cluster lists has none.
\<close>

theorem list_notes_groups_by_directory:
  assumes "ns \<noteq> []" and "distinct (map fst ns)" and "list_all (\<lambda>item. isascii (fst item)) ns"
  shows "list_notes (Some ns) =
           ''Knowledge Base: '' @ str_of_nat (length ns) @ '' note(s) across ''
             @ str_of_nat (length (listed_topics ns)) @ '' topic(s)\<newline>\<newline>''
           @ concat (map (\<lambda>topic.
               ''## '' @ py_title (py_replace ''-'' '' '' topic) @ '' (''
                 @ str_of_nat (length (notes_under topic ns)) @ '' notes)\<newline>''
               @ concat (map note_line (sort_key l_title (notes_under topic ns)))
               @ ''\<newline>'') (listed_topics ns))
           @ ''Use search_knowledge to find specific information, or get_note to read a full note.''
       \<and> ((p, d) \<in> set ns \<longrightarrow>
            topic_of_path p \<in> set (listed_topics ns)
            \<and> \<lparr>l_path = p, l_title = dict_get d ''title'' p\<rparr> \<in> set (notes_under (topic_of_path p) ns))
       \<and> topic_of_path path =
            (if CHR ''/'' \<in> set path then takeWhile (\<lambda>c. c \<noteq> CHR ''/'') path else ''General'')
       \<and> ((\<forall>item \<in> set ns. CHR ''/'' \<notin> set (fst item)) \<longrightarrow> listed_topics ns = [''General''])
       \<and> ((q, e) \<in> set (collect_notes note_to_cluster contents []) \<longrightarrow>
            assigned_topic e = (case note_to_cluster q of None \<Rightarrow> ''General'' | Some t \<Rightarrow> t))
       \<and> (q \<notin> manifest_files clusters \<longrightarrow> assign_clusters clusters Map.empty q = None)"
proof -
  have c1: "list_notes (Some ns) =
           ''Knowledge Base: '' @ str_of_nat (length ns) @ '' note(s) across ''
             @ str_of_nat (length (listed_topics ns)) @ '' topic(s)\<newline>\<newline>''
           @ concat (map (\<lambda>topic.
               ''## '' @ py_title (py_replace ''-'' '' '' topic) @ '' (''
                 @ str_of_nat (length (notes_under topic ns)) @ '' notes)\<newline>''
               @ concat (map note_line (sort_key l_title (notes_under topic ns)))
               @ ''\<newline>'') (listed_topics ns))
           @ ''Use search_knowledge to find specific information, or get_note to read a full note.''"
    using assms(1)
    by (simp add: list_notes_def state_get_notes_def Let_def append_topics_concat
        sorted_keys_group_notes length_group_notes dict_get_group_notes dict_get_Nil
        list_header_def list_footer_def topic_heading_def del: str_of_nat.simps)
  have c2: "(p, d) \<in> set ns \<longrightarrow>
            topic_of_path p \<in> set (listed_topics ns)
            \<and> \<lparr>l_path = p, l_title = dict_get d ''title'' p\<rparr> \<in> set (notes_under (topic_of_path p) ns)"
    by (force simp: listed_topics_def notes_under_def)
  have c4: "(\<forall>item \<in> set ns. CHR ''/'' \<notin> set (fst item)) \<longrightarrow> listed_topics ns = [''General'']"
    using listed_topics_general [OF assms(1)] by blast
  have c5: "(q, e) \<in> set (collect_notes note_to_cluster contents []) \<longrightarrow>
            assigned_topic e = (case note_to_cluster q of None \<Rightarrow> ''General'' | Some t \<Rightarrow> t)"
    using collect_notes_topic [of q e note_to_cluster contents "[]"] by simp
  have c6: "q \<notin> manifest_files clusters \<longrightarrow> assign_clusters clusters Map.empty q = None"
    using assign_clusters_other [of q clusters Map.empty] by simp
  from c1 c2 topic_of_path_directory [of path] c4 c5 c6 show ?thesis by (intro conjI)
qed

theorem list_notes_groups_by_directory_witness:
  "list_notes (Some two_notes) =
     ''Knowledge Base: 2 note(s) across 2 topic(s)\<newline>\<newline>## General (1 notes)\<newline>- **Welcome** (`welcome.md`)\<newline>\<newline>## Dev Ops (1 notes)\<newline>- **Deploy** (`dev-ops/deploy.md`)\<newline>\<newline>Use search_knowledge to find specific information, or get_note to read a full note.''
   \<and> \<lparr>l_path = ''dev-ops/deploy.md'', l_title = ''Deploy''\<rparr> \<in> set (notes_under ''dev-ops'' two_notes)
   \<and> listed_topics example_store = [''General'']
   \<and> map (\<lambda>item. assigned_topic (snd item))
         (collect_notes [''welcome.md'' \<mapsto> ''Onboarding'']
            [\<lparr>file_type = ''file'', file_name = ''welcome.md'', decoded_content = Inr ''# Welcome''\<rparr>] [])
       = [''Onboarding'']
   \<and> assign_clusters [\<lparr>cluster_name = Some ''Onboarding'', cluster_notes = Some [''welcome.md'']\<rparr>]
         Map.empty ''deploy.md'' = None"
proof -
  let ?m = "[''welcome.md'' \<mapsto> ''Onboarding'']"
  let ?fs = "[\<lparr>file_type = ''file'', file_name = ''welcome.md'', decoded_content = Inr ''# Welcome''\<rparr>]"
  let ?cs = "[\<lparr>cluster_name = Some ''Onboarding'', cluster_notes = Some [''welcome.md'']\<rparr>]"
  let ?d = "[(''content'', ''# Deploy''), (''title'', ''Deploy''),
             (''path'', ''dev-ops/deploy.md''), (''topic'', ''Onboarding'')]"
  have a: "two_notes \<noteq> []" by (simp add: two_notes_def)
  have b: "distinct (map fst two_notes)" by (simp add: two_notes_def)
  have c: "list_all (\<lambda>item. isascii (fst item)) two_notes" by code_simp
  have a': "example_store \<noteq> []" by (simp add: example_store_def)
  have b': "distinct (map fst example_store)" by (simp add: example_store_def)
  have c': "list_all (\<lambda>item. isascii (fst item)) example_store" by code_simp
  have r: "''Knowledge Base: '' @ str_of_nat (length two_notes) @ '' note(s) across ''
             @ str_of_nat (length (listed_topics two_notes)) @ '' topic(s)\<newline>\<newline>''
           @ concat (map (\<lambda>topic.
               ''## '' @ py_title (py_replace ''-'' '' '' topic) @ '' (''
                 @ str_of_nat (length (notes_under topic two_notes)) @ '' notes)\<newline>''
               @ concat (map note_line (sort_key l_title (notes_under topic two_notes)))
               @ ''\<newline>'') (listed_topics two_notes))
           @ ''Use search_knowledge to find specific information, or get_note to read a full note.''
         = ''Knowledge Base: 2 note(s) across 2 topic(s)\<newline>\<newline>## General (1 notes)\<newline>- **Welcome** (`welcome.md`)\<newline>\<newline>## Dev Ops (1 notes)\<newline>- **Deploy** (`dev-ops/deploy.md`)\<newline>\<newline>Use search_knowledge to find specific information, or get_note to read a full note.''"
    by code_simp
  have mem: "(''dev-ops/deploy.md'', ?d) \<in> set two_notes" by (simp add: two_notes_def)
  have tp: "topic_of_path ''dev-ops/deploy.md'' = ''dev-ops''" by code_simp
  have tl: "dict_get ?d ''title'' ''dev-ops/deploy.md'' = ''Deploy''" by (simp add: dict_get_def)
  have ns: "\<forall>item \<in> set example_store. CHR ''/'' \<notin> set (fst item)"
    by (simp add: example_store_def)
  have cn: "collect_notes ?m ?fs [] =
              [(''welcome.md'', [(''content'', ''# Welcome''), (''title'', ''Welcome''),
                                 (''path'', ''welcome.md''), (''topic'', ''Onboarding'')])]"
    by code_simp
  have mf: "''deploy.md'' \<notin> manifest_files ?cs" by (simp add: manifest_files_def)
  note t1 = list_notes_groups_by_directory [OF a b c, where p = "''dev-ops/deploy.md''" and d = ?d
      and q = "''deploy.md''" and clusters = ?cs]
  note t2 = list_notes_groups_by_directory [OF a' b' c', where q = "''welcome.md''"
      and e = "[(''content'', ''# Welcome''), (''title'', ''Welcome''),
                (''path'', ''welcome.md''), (''topic'', ''Onboarding'')]"
      and note_to_cluster = ?m and contents = ?fs]
  have w1: "list_notes (Some two_notes) =
     ''Knowledge Base: 2 note(s) across 2 topic(s)\<newline>\<newline>## General (1 notes)\<newline>- **Welcome** (`welcome.md`)\<newline>\<newline>## Dev Ops (1 notes)\<newline>- **Deploy** (`dev-ops/deploy.md`)\<newline>\<newline>Use search_knowledge to find specific information, or get_note to read a full note.''"
    using t1 [THEN conjunct1] unfolding r .
  have w2: "\<lparr>l_path = ''dev-ops/deploy.md'', l_title = ''Deploy''\<rparr> \<in> set (notes_under ''dev-ops'' two_notes)"
    using t1 [THEN conjunct2, THEN conjunct1] mem unfolding tp tl by blast
  have w3: "listed_topics example_store = [''General'']"
    using t2 [THEN conjunct2, THEN conjunct2, THEN conjunct2, THEN conjunct1] ns by blast
  have "assigned_topic [(''content'', ''# Welcome''), (''title'', ''Welcome''),
                        (''path'', ''welcome.md''), (''topic'', ''Onboarding'')]
          = (case ?m ''welcome.md'' of None \<Rightarrow> ''General'' | Some t \<Rightarrow> t)"
    using t2 [THEN conjunct2, THEN conjunct2, THEN conjunct2, THEN conjunct2, THEN conjunct1]
    unfolding cn by simp
  then have w4: "map (\<lambda>item. assigned_topic (snd item)) (collect_notes ?m ?fs []) = [''Onboarding'']"
    unfolding cn by simp
  have w5: "assign_clusters ?cs Map.empty ''deploy.md'' = None"
    using t1 [THEN conjunct2, THEN conjunct2, THEN conjunct2, THEN conjunct2, THEN conjunct2] mf
    by blast
  from w1 w2 w3 w4 w5 show ?thesis by (intro conjI)
qed

text \<open>
  C8 as stated fails: the fetch assigns the note the topic \<open>Onboarding\<close> of the manifest,
  and the listing puts it under \<open>General\<close>.
\<close>

theorem list_notes_ignores_topic_counterexample:
  "fetch_knowledge_base (Inr (Some (\<lambda>name. Inr example_repo))) ''org/kb'' None = Inr example_store
   \<and> map (\<lambda>item. assigned_topic (snd item)) example_store = [''Onboarding'']
   \<and> list_notes (Some example_store) =
       ''Knowledge Base: 1 note(s) across 1 topic(s)\<newline>\<newline>## General (1 notes)\<newline>- **Welcome** (`welcome.md`)\<newline>\<newline>Use search_knowledge to find specific information, or get_note to read a full note.''"
  by code_simp

end
